theory Spec2Isabelle
  imports Complex_Main
begin

section \<open>JavaScript values used by the model\<close>

text \<open>
  Optional fields (\<open>x?: T\<close>, \<open>T | undefined\<close>) are \<open>T option\<close>. Numbers that count
  tokens, seconds or milliseconds are mathematical integers. Truthiness: an optional
  boolean is truthy when it is \<open>Some True\<close>, an optional number when it is defined and
  not zero, an optional string when it is defined and not empty.
\<close>

definition truthy_bool :: "bool option \<Rightarrow> bool" where
  "truthy_bool b = (b = Some True)"

definition truthy_num :: "int option \<Rightarrow> bool" where
  "truthy_num n = (case n of None \<Rightarrow> False | Some k \<Rightarrow> k \<noteq> 0)"

definition truthy_str :: "string option \<Rightarrow> bool" where
  "truthy_str s = (case s of None \<Rightarrow> False | Some t \<Rightarrow> t \<noteq> [])"

text \<open>\<open>x || d\<close> on an optional number.\<close>

definition num_or :: "int option \<Rightarrow> int \<Rightarrow> int" where
  "num_or n d = (case n of None \<Rightarrow> d | Some k \<Rightarrow> if k \<noteq> 0 then k else d)"

text \<open>\<open>String.prototype.startsWith\<close> and \<open>String.prototype.includes\<close>.\<close>

definition startsWith :: "string \<Rightarrow> string \<Rightarrow> bool" where
  "startsWith s p = (take (length p) s = p)"

fun str_includes :: "string \<Rightarrow> string \<Rightarrow> bool" where
  "str_includes [] sub = (sub = [])"
| "str_includes (c # cs) sub = (startsWith (c # cs) sub \<or> str_includes cs sub)"

section \<open>Maximum output tokens (src/shared/api.ts)\<close>

record ModelInfo =
  maxTokens :: "int option"
  contextWindow :: int
  supportsReasoningBudget :: "bool option"
  requiredReasoningBudget :: "bool option"

record ProviderSettings =
  apiProvider :: "string option"
  claudeCodeMaxOutputTokens :: "int option"
  modelMaxTokens :: "int option"
  enableReasoningEffort :: "bool option"
  rateLimitSeconds :: "int option"

datatype format = Anthropic | Openai | Gemini | Openrouter

definition DEFAULT_HYBRID_REASONING_MODEL_MAX_TOKENS :: int where
  "DEFAULT_HYBRID_REASONING_MODEL_MAX_TOKENS = 16384"

text \<open>
  \<open>shouldUseReasoningBudget\<close>:
  \<open>!!model.requiredReasoningBudget || (!!model.supportsReasoningBudget && !!settings?.enableReasoningEffort)\<close>.
\<close>

definition shouldUseReasoningBudget :: "ModelInfo \<Rightarrow> ProviderSettings option \<Rightarrow> bool" where
  "shouldUseReasoningBudget model settings =
     (truthy_bool (requiredReasoningBudget model) \<or>
      (truthy_bool (supportsReasoningBudget model) \<and>
       (case settings of None \<Rightarrow> False | Some s \<Rightarrow> truthy_bool (enableReasoningEffort s))))"

definition isAnthropicContext :: "string \<Rightarrow> format option \<Rightarrow> bool" where
  "isAnthropicContext modelId fmt =
     (str_includes modelId ''claude'' \<or> fmt = Some Anthropic \<or>
      (fmt = Some Openrouter \<and> startsWith modelId ''anthropic/''))"

text \<open>
  \<open>Math.ceil(model.contextWindow * 0.2)\<close>, on an integer context window. The product is
  the exact one: the rounding of the double-precision product is not modelled.
\<close>

definition ceil_fifth :: "int \<Rightarrow> int" where
  "ceil_fifth cw = \<lceil>real_of_int cw * 0.2\<rceil>"

text \<open>
  \<open>getModelMaxOutputTokens\<close>. The two constants imported from the types package,
  \<open>ANTHROPIC_DEFAULT_MAX_TOKENS\<close> and \<open>CLAUDE_CODE_DEFAULT_MAX_OUTPUT_TOKENS\<close>, are the
  first two parameters. The result \<open>None\<close> is \<open>undefined\<close>.
\<close>

definition getModelMaxOutputTokens ::
  "int \<Rightarrow> int \<Rightarrow> string \<Rightarrow> ModelInfo \<Rightarrow> ProviderSettings option \<Rightarrow> format option \<Rightarrow> int option" where
  "getModelMaxOutputTokens ANTHROPIC_DEFAULT_MAX_TOKENS CLAUDE_CODE_DEFAULT_MAX_OUTPUT_TOKENS
       modelId model settings fmt =
     (if (case settings of None \<Rightarrow> False | Some s \<Rightarrow> apiProvider s = Some ''claude-code'')
      then Some (num_or (case settings of None \<Rightarrow> None | Some s \<Rightarrow> claudeCodeMaxOutputTokens s)
                   CLAUDE_CODE_DEFAULT_MAX_OUTPUT_TOKENS)
      else if shouldUseReasoningBudget model settings
      then Some (num_or (case settings of None \<Rightarrow> None | Some s \<Rightarrow> modelMaxTokens s)
                   DEFAULT_HYBRID_REASONING_MODEL_MAX_TOKENS)
      else if truthy_bool (supportsReasoningBudget model) \<and> isAnthropicContext modelId fmt
      then Some ANTHROPIC_DEFAULT_MAX_TOKENS
      else if isAnthropicContext modelId fmt \<and> \<not> truthy_num (maxTokens model)
      then Some ANTHROPIC_DEFAULT_MAX_TOKENS
      else (case maxTokens model of
              Some mt \<Rightarrow>
                if mt \<noteq> 0 then Some (min mt (ceil_fifth (contextWindow model)))
                else if fmt \<noteq> None then None
                else Some ANTHROPIC_DEFAULT_MAX_TOKENS
            | None \<Rightarrow>
                if fmt \<noteq> None then None
                else Some ANTHROPIC_DEFAULT_MAX_TOKENS))"

section \<open>Messages and the task (src/core/task/Task.ts)\<close>

text \<open>
  A \<open>ClineMessage\<close> of the UI log. The fields \<open>type\<close>, \<open>ask\<close>, \<open>say\<close> and \<open>text\<close> carry
  the prefix \<open>msg_\<close> (the plain names are taken by a keyword and by the task's methods).
  Ask and say kinds are the strings of the source.
\<close>

datatype msg_type = Ask | Say

record gpt5_metadata =
  previous_response_id :: "string option"

record msg_metadata =
  gpt5 :: "gpt5_metadata option"

record ContextCondense =
  summary :: string
  cost :: int
  newContextTokens :: int
  prevContextTokens :: int

record ClineMessage =
  ts :: int
  msg_type :: msg_type
  msg_ask :: "string option"
  msg_say :: "string option"
  msg_text :: "string option"
  images :: "string list option"
  partial :: "bool option"
  progressStatus :: "string option"
  isProtected :: "bool option"
  checkpoint :: "string option"
  contextCondense :: "ContextCondense option"
  metadata :: "msg_metadata option"

text \<open>An object literal that sets only some fields leaves the others undefined.\<close>

definition new_message :: "int \<Rightarrow> msg_type \<Rightarrow> ClineMessage" where
  "new_message t ty =
     \<lparr>ts = t, msg_type = ty, msg_ask = None, msg_say = None, msg_text = None, images = None,
      partial = None, progressStatus = None, isProtected = None, checkpoint = None,
      contextCondense = None, metadata = None\<rparr>"

text \<open>Content blocks and messages of the API conversation history.\<close>

datatype result_item = ResultText string | ResultImage string

datatype tool_result_content =
  ResultString string | ResultBlocks "result_item list" | ResultUndefined

datatype content_block =
  TextBlock string
| ImageBlock string
| ToolUseBlock string string "(string \<times> string) list"
| ToolResultBlock string tool_result_content

datatype message_content = StringContent string | BlockContent "content_block list"

datatype role = User | Assistant | OtherRole string

record ApiMessage =
  role :: role
  content :: message_content
  api_ts :: "int option"

datatype ClineAskResponse = yesButtonClicked | noButtonClicked | messageResponse

text \<open>Every \<open>throw\<close> of the modelled code is a value of this type.\<close>

datatype error =
  AskAborted
| SayAborted
| AskIgnored
| AskIgnored1
| AskIgnored2
| WebviewFailed
| LoopAborted
| NoApiHistory
| UnexpectedLastRole
| AutoApprovalDenied
| ApiRequestFailed
| OtherFailure

text \<open>
  What the task does to its collaborators, in order: posts to the webview, emitted events,
  telemetry captures and console output.
\<close>

datatype event =
  PostStateToWebview
| PostMessageUpdated ClineMessage
| EmitMessageCreated ClineMessage
| EmitMessageUpdated ClineMessage
| EmitTaskTokenUsageUpdated
| UpdateTaskHistory
| CaptureTaskMessage ClineMessage
| EmitTaskIdle
| EmitTaskActive
| EmitTaskAskResponded
| EmitTaskAborted
| RestoreTodoList
| ConsoleError string

text \<open>
  The fields of a \<open>Task\<close> instance that the modelled methods read or write, followed by
  the world outside it: the two persisted logs (\<open>savedClineMessages\<close>,
  \<open>savedApiMessages\<close>) and the trace of events.
\<close>

record Task =
  abort :: bool
  abandoned :: bool
  clineMessages :: "ClineMessage list"
  apiConversationHistory :: "ApiMessage list"
  askResponse :: "ClineAskResponse option"
  askResponseText :: "string option"
  askResponseImages :: "string list option"
  lastMessageTs :: "int option"
  blockingAsk :: "string option"
  skipPrevResponseIdOnce :: bool
  consecutiveMistakeCount :: int
  savedClineMessages :: "ClineMessage list"
  savedApiMessages :: "ApiMessage list"
  events :: "event list"

text \<open>
  How the collaborators behave during one call: whether the provider reference is still
  alive, which of their calls throw, whether the cloud service is enabled, and the
  classification \<open>isBlockingAsk\<close> of the types package.
\<close>

record Env =
  provider_alive :: bool
  postStateToWebview_throws :: bool
  saveTaskMessages_throws :: bool
  taskMetadata_throws :: bool
  updateTaskHistory_throws :: bool
  saveApiMessages_throws :: bool
  cloud_enabled :: bool
  isBlockingAsk :: "string \<Rightarrow> bool"

definition log_event :: "event \<Rightarrow> Task \<Rightarrow> Task" where
  "log_event e t = t\<lparr>events := events t @ [e]\<rparr>"

text \<open>\<open>Array.prototype.at(-1)\<close>.\<close>

definition at_last :: "'a list \<Rightarrow> 'a option" where
  "at_last xs = (if xs = [] then None else Some (last xs))"

subsection \<open>The conversation state store\<close>

text \<open>
  The body of the \<open>try\<close> in \<open>saveApiConversationHistory\<close>: the write of the API history,
  which throws or stores the in-memory log.
\<close>

definition saveApiMessages :: "Env \<Rightarrow> Task \<Rightarrow> error + Task" where
  "saveApiMessages env t =
     (if saveApiMessages_throws env then Inl OtherFailure
      else Inr (t\<lparr>savedApiMessages := apiConversationHistory t\<rparr>))"

definition saveApiConversationHistory :: "Env \<Rightarrow> Task \<Rightarrow> Task" where
  "saveApiConversationHistory env t =
     (case saveApiMessages env t of
        Inr t' \<Rightarrow> t'
      | Inl e \<Rightarrow> log_event (ConsoleError ''Failed to save API conversation history:'') t)"

definition addToApiConversationHistory ::
  "Env \<Rightarrow> int \<Rightarrow> role \<Rightarrow> message_content \<Rightarrow> Task \<Rightarrow> (error + unit) \<times> Task" where
  "addToApiConversationHistory env now r c t =
     (Inr (), saveApiConversationHistory env
        (t\<lparr>apiConversationHistory :=
             apiConversationHistory t @ [\<lparr>role = r, content = c, api_ts = Some now\<rparr>]\<rparr>))"

definition overwriteApiConversationHistory ::
  "Env \<Rightarrow> ApiMessage list \<Rightarrow> Task \<Rightarrow> (error + unit) \<times> Task" where
  "overwriteApiConversationHistory env newHistory t =
     (Inr (), saveApiConversationHistory env (t\<lparr>apiConversationHistory := newHistory\<rparr>))"

text \<open>
  The body of the \<open>try\<close> in \<open>saveClineMessages\<close>: the write of the UI log, the task
  metadata, the token usage event and the update of the task history. A step that throws
  ends the body; what was done before it stays done.
\<close>

definition saveClineMessages_body :: "Env \<Rightarrow> Task \<Rightarrow> (error + unit) \<times> Task" where
  "saveClineMessages_body env t =
     (if saveTaskMessages_throws env then (Inl OtherFailure, t)
      else let t1 = t\<lparr>savedClineMessages := clineMessages t\<rparr> in
        if taskMetadata_throws env then (Inl OtherFailure, t1)
        else let t2 = log_event EmitTaskTokenUsageUpdated t1 in
          if \<not> provider_alive env then (Inr (), t2)
          else if updateTaskHistory_throws env then (Inl OtherFailure, t2)
          else (Inr (), log_event UpdateTaskHistory t2))"

definition saveClineMessages :: "Env \<Rightarrow> Task \<Rightarrow> Task" where
  "saveClineMessages env t =
     (case saveClineMessages_body env t of
        (Inr u, t') \<Rightarrow> t'
      | (Inl e, t') \<Rightarrow> log_event (ConsoleError ''Failed to save Roo messages:'') t')"

text \<open>\<open>message.partial !== true && CloudService.isEnabled()\<close>, then the capture.\<close>

definition captureMessage :: "Env \<Rightarrow> ClineMessage \<Rightarrow> Task \<Rightarrow> Task" where
  "captureMessage env m t =
     (if partial m \<noteq> Some True \<and> cloud_enabled env then log_event (CaptureTaskMessage m) t
      else t)"

definition addToClineMessages :: "Env \<Rightarrow> ClineMessage \<Rightarrow> Task \<Rightarrow> (error + unit) \<times> Task" where
  "addToClineMessages env m t =
     (let t1 = t\<lparr>clineMessages := clineMessages t @ [m]\<rparr> in
      if provider_alive env \<and> postStateToWebview_throws env then (Inl WebviewFailed, t1)
      else
        let t2 = (if provider_alive env then log_event PostStateToWebview t1 else t1);
            t3 = log_event (EmitMessageCreated m) t2;
            t4 = saveClineMessages env t3
        in (Inr (), captureMessage env m t4))"

definition overwriteClineMessages ::
  "Env \<Rightarrow> ClineMessage list \<Rightarrow> Task \<Rightarrow> (error + unit) \<times> Task" where
  "overwriteClineMessages env newMessages t =
     (Inr (), saveClineMessages env (log_event RestoreTodoList (t\<lparr>clineMessages := newMessages\<rparr>)))"

text \<open>
  \<open>updateClineMessage\<close> is called without \<open>await\<close> by \<open>ask\<close> and \<open>say\<close>: a rejection of its
  promise never reaches the caller, so it only adds to the trace.
\<close>

definition updateClineMessage :: "Env \<Rightarrow> ClineMessage \<Rightarrow> Task \<Rightarrow> Task" where
  "updateClineMessage env m t =
     (let t1 = (if provider_alive env then log_event (PostMessageUpdated m) t else t);
          t2 = log_event (EmitMessageUpdated m) t1
      in captureMessage env m t2)"

text \<open>Assignment to the fields of \<open>lastMessage\<close>, the last element of the log.\<close>

definition set_last :: "ClineMessage \<Rightarrow> Task \<Rightarrow> Task" where
  "set_last m t = t\<lparr>clineMessages := butlast (clineMessages t) @ [m]\<rparr>"

subsection \<open>say\<close>

text \<open>
  The parameters of \<open>say\<close>: \<open>type\<close>, \<open>text\<close>, \<open>images\<close>, \<open>partial\<close>, \<open>checkpoint\<close>,
  \<open>progressStatus\<close>, the two fields of \<open>options\<close>, and \<open>contextCondense\<close>.
\<close>

record SayArgs =
  say_type :: string
  say_text :: "string option"
  say_images :: "string list option"
  say_partial :: "bool option"
  say_checkpoint :: "string option"
  say_progressStatus :: "string option"
  say_isNonInteractive :: "bool option"
  say_metadata :: "msg_metadata option"
  say_contextCondense :: "ContextCondense option"

text \<open>
  \<open>lastMessage && lastMessage.partial && lastMessage.type === "say" && lastMessage.say === type\<close>.
  Where it holds the log is not empty, and \<open>last (clineMessages t)\<close> is \<open>lastMessage\<close>.
\<close>

definition isUpdatingPreviousPartial_say :: "string \<Rightarrow> Task \<Rightarrow> bool" where
  "isUpdatingPreviousPartial_say ty t =
     (case at_last (clineMessages t) of
        None \<Rightarrow> False
      | Some lastMessage \<Rightarrow>
          partial lastMessage = Some True \<and> msg_type lastMessage = Say \<and>
          msg_say lastMessage = Some ty)"

text \<open>\<open>if (!options.isNonInteractive) { this.lastMessageTs = sayTs }\<close>.\<close>

definition say_watermark :: "SayArgs \<Rightarrow> int \<Rightarrow> Task \<Rightarrow> Task" where
  "say_watermark a sayTs t =
     (if \<not> truthy_bool (say_isNonInteractive a) then t\<lparr>lastMessageTs := Some sayTs\<rparr> else t)"

text \<open>
  \<open>say\<close>, with the value \<open>now\<close> that \<open>Date.now()\<close> returns during the call. The result is
  the thrown error or \<open>()\<close>, with the task as the call leaves it.
\<close>

definition say :: "Env \<Rightarrow> int \<Rightarrow> SayArgs \<Rightarrow> Task \<Rightarrow> (error + unit) \<times> Task" where
  "say env now a t =
     (if abort t then (Inl SayAborted, t)
      else case say_partial a of
        Some p \<Rightarrow>
          if p then
            if isUpdatingPreviousPartial_say (say_type a) t then
              let lastMessage = (last (clineMessages t))
                    \<lparr>msg_text := say_text a, images := say_images a, partial := Some p,
                     progressStatus := say_progressStatus a\<rparr>
              in (Inr (), updateClineMessage env lastMessage (set_last lastMessage t))
            else
              addToClineMessages env
                ((new_message now Say)
                   \<lparr>msg_say := Some (say_type a), msg_text := say_text a,
                    images := say_images a, partial := Some p,
                    contextCondense := say_contextCondense a, metadata := say_metadata a\<rparr>)
                (say_watermark a now t)
          else
            if isUpdatingPreviousPartial_say (say_type a) t then
              let t1 = say_watermark a (ts (last (clineMessages t))) t;
                  lm = (last (clineMessages t))
                    \<lparr>msg_text := say_text a, images := say_images a, partial := Some False,
                     progressStatus := say_progressStatus a\<rparr>;
                  lastMessage =
                    (case say_metadata a of None \<Rightarrow> lm | Some md \<Rightarrow> lm\<lparr>metadata := Some md\<rparr>);
                  t2 = saveClineMessages env (set_last lastMessage t1)
              in (Inr (), updateClineMessage env lastMessage t2)
            else
              addToClineMessages env
                ((new_message now Say)
                   \<lparr>msg_say := Some (say_type a), msg_text := say_text a,
                    images := say_images a,
                    contextCondense := say_contextCondense a, metadata := say_metadata a\<rparr>)
                (say_watermark a now t)
      | None \<Rightarrow>
          addToClineMessages env
            ((new_message now Say)
               \<lparr>msg_say := Some (say_type a), msg_text := say_text a,
                images := say_images a, checkpoint := say_checkpoint a,
                contextCondense := say_contextCondense a\<rparr>)
            (say_watermark a now t))"

text \<open>
  A sequence of awaited \<open>say\<close> calls, each with the behaviour of the collaborators and the
  clock value during it. The first call that throws ends the sequence.
\<close>

fun say_all :: "(Env \<times> int \<times> SayArgs) list \<Rightarrow> Task \<Rightarrow> (error + unit) \<times> Task" where
  "say_all [] t = (Inr (), t)"
| "say_all ((env, now, a) # calls) t =
     (case say env now a t of
        (Inl e, t') \<Rightarrow> (Inl e, t')
      | (Inr u, t') \<Rightarrow> say_all calls t')"

subsection \<open>ask\<close>

record AskArgs =
  ask_type :: string
  ask_text :: "string option"
  ask_partial :: "bool option"
  ask_progressStatus :: "string option"
  ask_isProtected :: "bool option"

record AskResult =
  response :: "ClineAskResponse option"
  result_text :: "string option"
  result_images :: "string list option"

definition isUpdatingPreviousPartial_ask :: "string \<Rightarrow> Task \<Rightarrow> bool" where
  "isUpdatingPreviousPartial_ask ty t =
     (case at_last (clineMessages t) of
        None \<Rightarrow> False
      | Some lastMessage \<Rightarrow>
          partial lastMessage = Some True \<and> msg_type lastMessage = Ask \<and>
          msg_ask lastMessage = Some ty)"

definition clear_askResponse :: "Task \<Rightarrow> Task" where
  "clear_askResponse t =
     t\<lparr>askResponse := None, askResponseText := None, askResponseImages := None\<rparr>"

definition handleWebviewAskResponse ::
  "ClineAskResponse \<Rightarrow> string option \<Rightarrow> string list option \<Rightarrow> Task \<Rightarrow> Task" where
  "handleWebviewAskResponse r txt imgs t =
     t\<lparr>askResponse := Some r, askResponseText := txt, askResponseImages := imgs\<rparr>"

text \<open>
  The first part of \<open>ask\<close>, up to the wait: the abort check and the posting of the
  message. It throws, or yields \<open>askTs\<close>.
\<close>

definition ask_post :: "Env \<Rightarrow> int \<Rightarrow> AskArgs \<Rightarrow> Task \<Rightarrow> (error + int) \<times> Task" where
  "ask_post env now a t =
     (if abort t then (Inl AskAborted, t)
      else case ask_partial a of
        Some p \<Rightarrow>
          if p then
            if isUpdatingPreviousPartial_ask (ask_type a) t then
              let lastMessage = (last (clineMessages t))
                    \<lparr>msg_text := ask_text a, partial := Some p,
                     progressStatus := ask_progressStatus a, isProtected := ask_isProtected a\<rparr>
              in (Inl AskIgnored1, updateClineMessage env lastMessage (set_last lastMessage t))
            else
              (case addToClineMessages env
                      ((new_message now Ask)
                         \<lparr>msg_ask := Some (ask_type a), msg_text := ask_text a,
                          partial := Some p, isProtected := ask_isProtected a\<rparr>)
                      (t\<lparr>lastMessageTs := Some now\<rparr>) of
                 (Inl e, t') \<Rightarrow> (Inl e, t')
               | (Inr u, t') \<Rightarrow> (Inl AskIgnored2, t'))
          else
            if isUpdatingPreviousPartial_ask (ask_type a) t then
              let askTs = ts (last (clineMessages t));
                  t1 = (clear_askResponse t)\<lparr>lastMessageTs := Some askTs\<rparr>;
                  lastMessage = (last (clineMessages t))
                    \<lparr>msg_text := ask_text a, partial := Some False,
                     progressStatus := ask_progressStatus a, isProtected := ask_isProtected a\<rparr>;
                  t2 = saveClineMessages env (set_last lastMessage t1)
              in (Inr askTs, updateClineMessage env lastMessage t2)
            else
              (case addToClineMessages env
                      ((new_message now Ask)
                         \<lparr>msg_ask := Some (ask_type a), msg_text := ask_text a,
                          isProtected := ask_isProtected a\<rparr>)
                      ((clear_askResponse t)\<lparr>lastMessageTs := Some now\<rparr>) of
                 (Inl e, t') \<Rightarrow> (Inl e, t')
               | (Inr u, t') \<Rightarrow> (Inr now, t'))
      | None \<Rightarrow>
          (case addToClineMessages env
                  ((new_message now Ask)
                     \<lparr>msg_ask := Some (ask_type a), msg_text := ask_text a,
                      isProtected := ask_isProtected a\<rparr>)
                  ((clear_askResponse t)\<lparr>lastMessageTs := Some now\<rparr>) of
             (Inl e, t') \<Rightarrow> (Inl e, t')
           | (Inr u, t') \<Rightarrow> (Inr now, t')))"

text \<open>The condition that \<open>pWaitFor\<close> polls: \<open>askResponse !== undefined || lastMessageTs !== askTs\<close>.\<close>

definition ask_ready :: "int \<Rightarrow> Task \<Rightarrow> bool" where
  "ask_ready askTs t = (askResponse t \<noteq> None \<or> lastMessageTs t \<noteq> Some askTs)"

text \<open>
  \<open>pWaitFor(condition, { interval: 100 })\<close>: the condition is checked at once and then
  again after every interval. Whatever else runs on the task between two checks (a
  response from the webview, another \<open>ask\<close> or \<open>say\<close>) is a function on the task; the
  list gives these, one per interval. The result is the task at the check that found the
  condition true, or \<open>None\<close> with the last task when the list ends before that: the wait
  is still going on.
\<close>

fun pWaitFor_ask :: "int \<Rightarrow> (Task \<Rightarrow> Task) list \<Rightarrow> Task \<Rightarrow> bool \<times> Task" where
  "pWaitFor_ask askTs [] t = (ask_ready askTs t, t)"
| "pWaitFor_ask askTs (f # fs) t =
     (if ask_ready askTs t then (True, t) else pWaitFor_ask askTs fs (f t))"

text \<open>
  Entering the wait: \<open>if (!partial && !isReady && isBlockingAsk(type))\<close> the task records
  the blocking ask and emits \<open>TaskIdle\<close>.
\<close>


definition ask_idle :: "Env \<Rightarrow> AskArgs \<Rightarrow> int \<Rightarrow> Task \<Rightarrow> Task" where
  "ask_idle env a askTs t =
     (let isReady = (askResponse t \<noteq> None \<or> lastMessageTs t \<noteq> Some askTs)
      in if ask_partial a \<noteq> Some True \<and> \<not> isReady \<and> isBlockingAsk env (ask_type a)
         then log_event EmitTaskIdle (t\<lparr>blockingAsk := Some (ask_type a)\<rparr>)
         else t)"

text \<open>
  \<open>ask\<close>. The result is \<open>None\<close> while the wait goes on, \<open>Some (Inl e)\<close> when the call
  throws \<open>e\<close> and \<open>Some (Inr r)\<close> when it returns \<open>r\<close>.
\<close>

definition ask ::
  "Env \<Rightarrow> int \<Rightarrow> AskArgs \<Rightarrow> (Task \<Rightarrow> Task) list \<Rightarrow> Task \<Rightarrow> (error + AskResult) option \<times> Task" where
  "ask env now a others t =
     (case ask_post env now a t of
        (Inl e, t') \<Rightarrow> (Some (Inl e), t')
      | (Inr askTs, t1) \<Rightarrow>
          case pWaitFor_ask askTs others (ask_idle env a askTs t1) of
               (False, t3) \<Rightarrow> (None, t3)
             | (True, t3) \<Rightarrow>
                 if lastMessageTs t3 \<noteq> Some askTs then (Some (Inl AskIgnored), t3)
                 else
                   let result = \<lparr>response = askResponse t3, result_text = askResponseText t3,
                                 result_images = askResponseImages t3\<rparr>;
                       t4 = clear_askResponse t3;
                       t5 = (if blockingAsk t4 \<noteq> None
                             then log_event EmitTaskActive (t4\<lparr>blockingAsk := None\<rparr>)
                             else t4)
                   in (Some (Inr result), log_event EmitTaskAskResponded t5))"

subsection \<open>A new task and well-behaved collaborators\<close>

text \<open>The field initialisers of the class \<open>Task\<close>, with nothing persisted and no event yet.\<close>

definition fresh_task :: Task where
  "fresh_task =
     \<lparr>abort = False, abandoned = False, clineMessages = [], apiConversationHistory = [],
      askResponse = None, askResponseText = None, askResponseImages = None,
      lastMessageTs = None, blockingAsk = None, skipPrevResponseIdOnce = False,
      consecutiveMistakeCount = 0, savedClineMessages = [], savedApiMessages = [],
      events = []\<rparr>"

text \<open>Collaborators of which no call throws; no ask kind is blocking.\<close>

definition quiet_env :: Env where
  "quiet_env =
     \<lparr>provider_alive = True, postStateToWebview_throws = False,
      saveTaskMessages_throws = False, taskMetadata_throws = False,
      updateTaskHistory_throws = False, saveApiMessages_throws = False,
      cloud_enabled = False, isBlockingAsk = (\<lambda>k. False)\<rparr>"

text \<open>A persistence layer of which every write throws.\<close>

definition failing_disk_env :: Env where
  "failing_disk_env =
     quiet_env\<lparr>saveTaskMessages_throws := True, saveApiMessages_throws := True\<rparr>"

definition say_args :: "string \<Rightarrow> string \<Rightarrow> bool option \<Rightarrow> SayArgs" where
  "say_args ty txt p =
     \<lparr>say_type = ty, say_text = Some txt, say_images = None, say_partial = p,
      say_checkpoint = None, say_progressStatus = None, say_isNonInteractive = None,
      say_metadata = None, say_contextCondense = None\<rparr>"

definition ask_args :: "string \<Rightarrow> string \<Rightarrow> bool option \<Rightarrow> AskArgs" where
  "ask_args ty txt p =
     \<lparr>ask_type = ty, ask_text = Some txt, ask_partial = p, ask_progressStatus = None,
      ask_isProtected = None\<rparr>"

subsection \<open>Resuming a task from history\<close>

text \<open>\<open>Array.prototype.join\<close> on strings, and the newline of the template strings.\<close>

definition nl :: string where
  "nl = [CHR 0x0A]"

fun join :: "string \<Rightarrow> string list \<Rightarrow> string" where
  "join sep [] = []"
| "join sep [x] = x"
| "join sep (x # y # ys) = x @ sep @ join sep (y # ys)"

fun is_tool_use :: "content_block \<Rightarrow> bool" where
  "is_tool_use (ToolUseBlock i n inp) = True"
| "is_tool_use b = False"

fun is_tool_result :: "content_block \<Rightarrow> bool" where
  "is_tool_result (ToolResultBlock i c) = True"
| "is_tool_result b = False"

text \<open>\<open>block.id\<close> of a tool-use block and \<open>result.tool_use_id\<close> of a tool-result block.\<close>

fun tool_id :: "content_block \<Rightarrow> string option" where
  "tool_id (ToolUseBlock i n inp) = Some i"
| "tool_id (ToolResultBlock i c) = Some i"
| "tool_id b = None"

text \<open>\<open>Array.isArray(message.content) ? message.content : [{ type: "text", text: message.content }]\<close>.\<close>

fun blocks_of :: "message_content \<Rightarrow> content_block list" where
  "blocks_of (BlockContent bs) = bs"
| "blocks_of (StringContent s) = [TextBlock s]"

text \<open>
  The text of a tool-result block: its text items (images removed), or its string; the
  texts are joined by an empty line. An undefined content joins to the empty string.
\<close>

fun result_texts :: "tool_result_content \<Rightarrow> string list" where
  "result_texts (ResultBlocks items) =
     concat (map (\<lambda>item. case item of ResultText s \<Rightarrow> [s] | ResultImage d \<Rightarrow> []) items)"
| "result_texts (ResultString s) = [s]"
| "result_texts ResultUndefined = [[]]"

text \<open>
  The rewrite of one block at lines 1143-1168: a tool-use block becomes a text block with
  the call in XML form, a tool-result block a text block with the result. \<open>findToolName\<close>
  (of \<open>integrations/misc/export-markdown\<close>) is a parameter, already applied to the history.
\<close>

fun without_tool_block :: "(string \<Rightarrow> string) \<Rightarrow> content_block \<Rightarrow> content_block" where
  "without_tool_block findToolName (ToolUseBlock i name inp) =
     (let inputAsXml =
            join nl (map (\<lambda>(key, v). ''<'' @ key @ ''>'' @ nl @ v @ nl @ ''</'' @ key @ ''>'') inp)
      in TextBlock (''<'' @ name @ ''>'' @ nl @ inputAsXml @ nl @ ''</'' @ name @ ''>''))"
| "without_tool_block findToolName (ToolResultBlock i c) =
     (let textContent = join (nl @ nl) (result_texts c);
          toolName = findToolName i
      in TextBlock (''['' @ toolName @ '' Result]'' @ nl @ nl @ textContent))"
| "without_tool_block findToolName b = b"

definition conversationWithoutToolBlocks ::
  "(string \<Rightarrow> ApiMessage list \<Rightarrow> string) \<Rightarrow> ApiMessage list \<Rightarrow> ApiMessage list" where
  "conversationWithoutToolBlocks findToolName existingApiConversationHistory =
     map (\<lambda>message.
            case content message of
              BlockContent bs \<Rightarrow>
                message\<lparr>content := BlockContent
                  (map (without_tool_block (\<lambda>i. findToolName i existingApiConversationHistory)) bs)\<rparr>
            | StringContent s \<Rightarrow> message)
         existingApiConversationHistory"

text \<open>The tool-result that stands for an interrupted tool call.\<close>

definition interrupted :: "content_block \<Rightarrow> content_block" where
  "interrupted toolUse =
     ToolResultBlock (case tool_id toolUse of Some i \<Rightarrow> i | None \<Rightarrow> [])
       (ResultString ''Task was interrupted before this tool call could be completed.'')"

text \<open>
  Lines 1183-1255: from the history, the pair of \<open>modifiedApiConversationHistory\<close> and
  \<open>modifiedOldUserContent\<close>, or the error thrown.
\<close>

definition modifiedOldUserContent ::
  "ApiMessage list \<Rightarrow> error + (ApiMessage list \<times> content_block list)" where
  "modifiedOldUserContent existingApiConversationHistory =
     (if length existingApiConversationHistory > 0 then
        let lastMessage = last existingApiConversationHistory in
        if role lastMessage = Assistant then
          let content = blocks_of (content lastMessage);
              hasToolUse = list_ex is_tool_use content
          in if hasToolUse then
               let toolUseBlocks = filter is_tool_use content;
                   toolResponses = map interrupted toolUseBlocks
               in Inr (existingApiConversationHistory, toolResponses)
             else Inr (existingApiConversationHistory, [])
        else if role lastMessage = User then
          let previousAssistantMessage =
                (if length existingApiConversationHistory \<ge> 2
                 then Some (existingApiConversationHistory ! (length existingApiConversationHistory - 2))
                 else None);
              existingUserContent = blocks_of (content lastMessage)
          in case previousAssistantMessage of
               Some previous \<Rightarrow>
                 if role previous = Assistant then
                   let assistantContent = blocks_of (content previous);
                       toolUseBlocks = filter is_tool_use assistantContent
                   in if length toolUseBlocks > 0 then
                        let existingToolResults = filter is_tool_result existingUserContent;
                            missingToolResponses =
                              map interrupted
                                (filter (\<lambda>toolUse. \<not> list_ex (\<lambda>result. tool_id result = tool_id toolUse)
                                                        existingToolResults)
                                   toolUseBlocks)
                        in Inr (butlast existingApiConversationHistory,
                                existingUserContent @ missingToolResponses)
                      else Inr (butlast existingApiConversationHistory, existingUserContent)
                 else Inr (butlast existingApiConversationHistory, existingUserContent)
             | None \<Rightarrow> Inr (butlast existingApiConversationHistory, existingUserContent)
        else Inl UnexpectedLastRole
      else Inl NoApiHistory)"

text \<open>
  \<open>resumeTaskFromHistory\<close> from line 1136 on, after the resume ask was answered with
  \<open>responseText\<close> and \<open>responseImages\<close>: it reads the persisted API history, rewrites its
  tool blocks, computes the user content, overwrites the history and yields the user
  content that \<open>initiateTaskLoop\<close> sends with the next request. \<open>imageBlocks\<close> (of
  \<open>formatResponse\<close>) is a parameter.
\<close>

definition resumeTaskFromHistory ::
  "(string \<Rightarrow> ApiMessage list \<Rightarrow> string) \<Rightarrow> (string list \<Rightarrow> content_block list) \<Rightarrow> Env \<Rightarrow>
   string option \<Rightarrow> string list option \<Rightarrow> Task \<Rightarrow> (error + content_block list) \<times> Task" where
  "resumeTaskFromHistory findToolName imageBlocks env responseText responseImages t =
     (let existingApiConversationHistory =
            conversationWithoutToolBlocks findToolName (savedApiMessages t)
      in case modifiedOldUserContent existingApiConversationHistory of
           Inl e \<Rightarrow> (Inl e, t)
         | Inr (modifiedApiConversationHistory, oldUserContent) \<Rightarrow>
             let c1 = (case responseText of
                         Some txt \<Rightarrow>
                           if txt \<noteq> [] then
                             oldUserContent @
                               [TextBlock (nl @ nl @ ''New instructions for task continuation:'' @ nl @
                                  ''<user_message>'' @ nl @ txt @ nl @ ''</user_message>'')]
                           else oldUserContent
                       | None \<Rightarrow> oldUserContent);
                 c2 = (case responseImages of
                         Some imgs \<Rightarrow> if length imgs > 0 then c1 @ imageBlocks imgs else c1
                       | None \<Rightarrow> c1);
                 newUserContent =
                   (if length c2 = 0 then [TextBlock ''[TASK RESUMPTION] Resuming task...''] else c2)
             in case overwriteApiConversationHistory env modifiedApiConversationHistory t of
                  (Inl e, t') \<Rightarrow> (Inl e, t')
                | (Inr u, t') \<Rightarrow> (Inr newUserContent, t'))"

text \<open>
  Two persisted histories. In the first the task was interrupted right after the assistant
  called a tool; in the second the assistant called two tools and the user turn that
  follows answers only the first.
\<close>

definition interrupted_history :: "ApiMessage list" where
  "interrupted_history =
     [\<lparr>role = User, content = BlockContent [TextBlock ''<task>list files</task>''], api_ts = Some 1\<rparr>,
      \<lparr>role = Assistant,
       content = BlockContent [TextBlock ''Listing.'', ToolUseBlock ''toolu_01'' ''list_files'' [(''path'', ''.'')]],
       api_ts = Some 2\<rparr>]"

definition half_answered_history :: "ApiMessage list" where
  "half_answered_history =
     [\<lparr>role = User, content = StringContent ''compare'', api_ts = Some 1\<rparr>,
      \<lparr>role = Assistant,
       content = BlockContent [ToolUseBlock ''toolu_01'' ''read_file'' [(''path'', ''a'')],
                               ToolUseBlock ''toolu_02'' ''read_file'' [(''path'', ''b'')]],
       api_ts = Some 2\<rparr>,
      \<lparr>role = User,
       content = BlockContent [ToolResultBlock ''toolu_01'' (ResultString ''contents of a'')],
       api_ts = Some 3\<rparr>]"

subsection \<open>attemptApiRequest: the rate limit\<close>

text \<open>
  The provider's state, as far as \<open>attemptApiRequest\<close> reads it; \<open>None\<close> for the whole
  state when the provider reference is dead.
\<close>

record ProviderState =
  apiConfiguration :: "ProviderSettings option"
  autoApprovalEnabled :: "bool option"
  alwaysApproveResubmit :: "bool option"
  requestDelaySeconds :: "int option"
  mode :: "string option"

text \<open>
  What all tasks of the process share: the static field \<open>Task.lastGlobalApiRequestTime\<close>
  and the clock that \<open>Date.now()\<close> reads, in milliseconds. \<open>delay(ms)\<close> advances the clock
  by \<open>ms\<close>; the time that other statements take is not counted.
\<close>

record Shared =
  lastGlobalApiRequestTime :: "int option"
  clock :: int

definition MAX_EXPONENTIAL_BACKOFF_SECONDS :: int where
  "MAX_EXPONENTIAL_BACKOFF_SECONDS = 600"

text \<open>A number in a template string.\<close>

fun show_nat :: "nat \<Rightarrow> string" where
  "show_nat n =
     (if n < 10 then [''0123456789'' ! n]
      else show_nat (n div 10) @ [''0123456789'' ! (n mod 10)])"

text \<open>\<open>apiConfiguration?.rateLimitSeconds || 0\<close> on the destructured state.\<close>

definition rateLimit :: "ProviderState option \<Rightarrow> int" where
  "rateLimit state =
     num_or (case state of
               None \<Rightarrow> None
             | Some st \<Rightarrow> (case apiConfiguration st of None \<Rightarrow> None | Some cfg \<Rightarrow> rateLimitSeconds cfg))
        0"

text \<open>Lines 2026-2035: the value of \<open>rateLimitDelay\<close>, in seconds.\<close>

definition rateLimitDelay :: "Shared \<Rightarrow> ProviderState option \<Rightarrow> int" where
  "rateLimitDelay sh state =
     (case lastGlobalApiRequestTime sh of
        None \<Rightarrow> 0
      | Some lastTime \<Rightarrow>
          if lastTime \<noteq> 0 then
            let now = clock sh;
                timeSinceLastRequest = now - lastTime
            in \<lceil>real_of_int (max 0 (rateLimit state * 1000 - timeSinceLastRequest)) / 1000\<rceil>
          else 0)"

definition retry_delayed_args :: "string \<Rightarrow> bool \<Rightarrow> SayArgs" where
  "retry_delayed_args txt p =
     \<lparr>say_type = ''api_req_retry_delayed'', say_text = Some txt, say_images = None,
      say_partial = Some p, say_checkpoint = None, say_progressStatus = None,
      say_isNonInteractive = None, say_metadata = None, say_contextCondense = None\<rparr>"

text \<open>
  \<open>for (let i = n; i > 0; i--) { await this.say("api_req_retry_delayed", msg(i), undefined, true); await delay(1000) }\<close>.
\<close>

fun countdown ::
  "Env \<Rightarrow> (nat \<Rightarrow> string) \<Rightarrow> nat \<Rightarrow> Shared \<times> Task \<Rightarrow> (error + unit) \<times> Shared \<times> Task" where
  "countdown env msg 0 st = (Inr (), st)"
| "countdown env msg (Suc i) (sh, t) =
     (case say env (clock sh) (retry_delayed_args (msg (Suc i)) True) t of
        (Inl e, t') \<Rightarrow> (Inl e, sh, t')
      | (Inr u, t') \<Rightarrow> countdown env msg i (sh\<lparr>clock := clock sh + 1000\<rparr>, t'))"

text \<open>
  Lines 2026-2049 of \<open>attemptApiRequest(retryAttempt)\<close>: the delay is computed, counted
  down only when it is positive and this is not a retry, and the shared timestamp is set
  to the time of the request. The result is \<open>rateLimitDelay\<close>.
\<close>

definition rateLimitPhase ::
  "Env \<Rightarrow> ProviderState option \<Rightarrow> nat \<Rightarrow> Shared \<times> Task \<Rightarrow> (error + int) \<times> Shared \<times> Task" where
  "rateLimitPhase env state retryAttempt st =
     (let d = rateLimitDelay (fst st) state
      in case (if d > 0 \<and> retryAttempt = 0
               then countdown env (\<lambda>i. ''Rate limiting for '' @ show_nat i @ '' seconds...'') (nat d) st
               else (Inr (), st)) of
           (Inl e, st') \<Rightarrow> (Inl e, st')
         | (Inr u, sh', t') \<Rightarrow> (Inr d, sh'\<lparr>lastGlobalApiRequestTime := Some (clock sh')\<rparr>, t'))"

subsection \<open>attemptApiRequest: condensation and the request metadata\<close>

text \<open>The result of \<open>truncateConversationIfNeeded\<close> (of \<open>core/sliding-window\<close>).\<close>

record TruncateResult =
  tr_messages :: "ApiMessage list"
  tr_error :: "string option"
  tr_summary :: "string option"
  tr_cost :: int
  tr_prevContextTokens :: int
  tr_newContextTokens :: "int option"

text \<open>
  What one invocation meets between lines 2053 and 2125: the truncation result (\<open>None\<close>
  when \<open>contextTokens\<close> is falsy and the block is skipped), the model id of the API
  handler, and whether the auto-approval check lets the request proceed.
\<close>

record RoundInput =
  ri_truncateResult :: "TruncateResult option"
  ri_modelId :: string
  ri_shouldProceed :: bool

record RequestMetadata =
  md_mode :: "string option"
  previousResponseId :: "string option"
  suppressPreviousResponseId :: "bool option"

text \<open>
  Lines 2085-2107. The comparison \<open>truncateResult.messages !== this.apiConversationHistory\<close>
  is by reference in the source and by value here: overwriting with an equal history
  leaves the in-memory history as it is.
\<close>

definition contextPhase :: "Env \<Rightarrow> int \<Rightarrow> TruncateResult option \<Rightarrow> Task \<Rightarrow> (error + unit) \<times> Task" where
  "contextPhase env now truncateResult t =
     (case truncateResult of
        None \<Rightarrow> (Inr (), t)
      | Some r \<Rightarrow>
          let t1 = (if tr_messages r \<noteq> apiConversationHistory t
                    then snd (overwriteApiConversationHistory env (tr_messages r) t) else t)
          in if truthy_str (tr_error r) then
               say env now
                 \<lparr>say_type = ''condense_context_error'', say_text = tr_error r, say_images = None,
                  say_partial = None, say_checkpoint = None, say_progressStatus = None,
                  say_isNonInteractive = None, say_metadata = None, say_contextCondense = None\<rparr> t1
             else if truthy_str (tr_summary r) then
               say env now
                 \<lparr>say_type = ''condense_context'', say_text = None, say_images = None,
                  say_partial = Some False, say_checkpoint = None, say_progressStatus = None,
                  say_isNonInteractive = Some True, say_metadata = None,
                  say_contextCondense =
                    Some \<lparr>summary = (case tr_summary r of Some x \<Rightarrow> x | None \<Rightarrow> []),
                          cost = tr_cost r,
                          newContextTokens = (case tr_newContextTokens r of Some n \<Rightarrow> n | None \<Rightarrow> 0),
                          prevContextTokens = tr_prevContextTokens r\<rparr>\<rparr>
                 (t1\<lparr>skipPrevResponseIdOnce := True\<rparr>)
             else (Inr (), t1))"

text \<open>
  Lines 2134-2145: the \<open>previous_response_id\<close> of the last say of kind \<open>text\<close> that stores a
  truthy one.
\<close>

definition stored_response_id :: "ClineMessage \<Rightarrow> string option" where
  "stored_response_id m =
     (case metadata m of
        None \<Rightarrow> None
      | Some md \<Rightarrow> (case gpt5 md of None \<Rightarrow> None | Some g \<Rightarrow> previous_response_id g))"

definition lastPreviousResponseId :: "ClineMessage list \<Rightarrow> string option" where
  "lastPreviousResponseId msgs =
     (case find (\<lambda>m. msg_type m = Say \<and> msg_say m = Some ''text'' \<and> truthy_str (stored_response_id m))
             (rev msgs) of
        None \<Rightarrow> None
      | Some m \<Rightarrow> stored_response_id m)"

text \<open>Lines 2129-2162: the metadata of the request, and the reset of the flag.\<close>

definition buildMetadata :: "string \<Rightarrow> string option \<Rightarrow> Task \<Rightarrow> RequestMetadata \<times> Task" where
  "buildMetadata modelId mode' t =
     (let previous =
            (if modelId \<noteq> [] \<and> startsWith modelId ''gpt-5'' \<and> \<not> skipPrevResponseIdOnce t
             then lastPreviousResponseId (clineMessages t) else None);
          metadata =
            \<lparr>md_mode = mode',
             previousResponseId = (if truthy_str previous then previous else None),
             suppressPreviousResponseId = (if skipPrevResponseIdOnce t then Some True else None)\<rparr>
      in (metadata, if skipPrevResponseIdOnce t then t\<lparr>skipPrevResponseIdOnce := False\<rparr> else t))"

text \<open>
  Lines 2053-2164 of one invocation: condensation, the auto-approval check, and the
  metadata with which \<open>createMessage\<close> is called. The result is that metadata, or the
  error thrown before any request is made.
\<close>

definition requestPhase ::
  "Env \<Rightarrow> int \<Rightarrow> ProviderState option \<Rightarrow> RoundInput \<Rightarrow> Task \<Rightarrow> (error + RequestMetadata) \<times> Task" where
  "requestPhase env now state ri t =
     (case contextPhase env now (ri_truncateResult ri) t of
        (Inl e, t') \<Rightarrow> (Inl e, t')
      | (Inr u, t1) \<Rightarrow>
          if \<not> ri_shouldProceed ri then (Inl AutoApprovalDenied, t1)
          else
            let (metadata, t2) =
                  buildMetadata (ri_modelId ri) (case state of None \<Rightarrow> None | Some st \<Rightarrow> mode st) t1
            in (Inr metadata, t2))"

text \<open>A condensation took place: there is a result with a summary and without an error.\<close>

definition condensed :: "RoundInput \<Rightarrow> bool" where
  "condensed ri =
     (case ri_truncateResult ri of
        None \<Rightarrow> False
      | Some r \<Rightarrow> \<not> truthy_str (tr_error r) \<and> truthy_str (tr_summary r))"

subsection \<open>attemptApiRequest: the retry delay\<close>

text \<open>The error thrown for the first chunk, as far as the retry reads it.\<close>

record ErrorDetail =
  detail_type :: string
  retryDelay :: "string option"

record ApiError =
  status :: "int option"
  errorDetails :: "ErrorDetail list option"

definition is_digit :: "char \<Rightarrow> bool" where
  "is_digit c = (c \<in> set ''0123456789'')"

definition digit_val :: "char \<Rightarrow> nat" where
  "digit_val c = of_char c - 48"

text \<open>\<open>retryDelay.match(/^(\d+)s$/)\<close> and \<open>Number(match[1])\<close>.\<close>

definition match_seconds :: "string \<Rightarrow> nat option" where
  "match_seconds s =
     (if s \<noteq> [] \<and> last s = CHR ''s'' \<and> butlast s \<noteq> [] \<and> list_all is_digit (butlast s)
      then Some (foldl (\<lambda>acc c. 10 * acc + digit_val c) 0 (butlast s))
      else None)"

text \<open>
  Lines 2194-2204: the retry delay that a 429 carries in a \<open>RetryInfo\<close> detail, when it
  parses.
\<close>

definition retry_hint :: "ApiError \<Rightarrow> nat option" where
  "retry_hint err =
     (if status err = Some 429 then
        (case errorDetails err of
           None \<Rightarrow> None
         | Some details \<Rightarrow>
             (case find (\<lambda>detail. detail_type detail = ''type.googleapis.com/google.rpc.RetryInfo'') details of
                None \<Rightarrow> None
              | Some geminiRetryDetails \<Rightarrow>
                  (case retryDelay geminiRetryDetails of
                     None \<Rightarrow> None
                   | Some d \<Rightarrow> match_seconds d)))
      else None)"

text \<open>
  Lines 2187-2204: \<open>requestDelaySeconds || 5\<close>, and the value of \<open>exponentialDelay\<close> after
  the 429 check.
\<close>

definition baseDelay :: "ProviderState option \<Rightarrow> int" where
  "baseDelay state = num_or (case state of None \<Rightarrow> None | Some st \<Rightarrow> requestDelaySeconds st) 5"

definition exponentialDelay :: "ProviderState option \<Rightarrow> nat \<Rightarrow> ApiError \<Rightarrow> int" where
  "exponentialDelay state retryAttempt err =
     (let exponential =
            min \<lceil>real_of_int (baseDelay state) * 2 ^ retryAttempt\<rceil> MAX_EXPONENTIAL_BACKOFF_SECONDS
      in case retry_hint err of
           Some n \<Rightarrow> int n + 1
         | None \<Rightarrow> exponential)"

text \<open>Line 2207: \<open>Math.max(exponentialDelay, rateLimitDelay)\<close>.\<close>

definition finalDelay :: "ProviderState option \<Rightarrow> nat \<Rightarrow> ApiError \<Rightarrow> int \<Rightarrow> int" where
  "finalDelay state retryAttempt err rateLimitDelay' =
     max (exponentialDelay state retryAttempt err) rateLimitDelay'"

text \<open>
  Lines 2207-2225 of the branch \<open>autoApprovalEnabled && alwaysApproveResubmit\<close>: the
  countdown of \<open>finalDelay\<close> seconds and the closing message, after which
  \<open>attemptApiRequest(retryAttempt + 1)\<close> is called.
\<close>

definition retryPhase ::
  "Env \<Rightarrow> ProviderState option \<Rightarrow> nat \<Rightarrow> ApiError \<Rightarrow> string \<Rightarrow> int \<Rightarrow> Shared \<times> Task
   \<Rightarrow> (error + unit) \<times> Shared \<times> Task" where
  "retryPhase env state retryAttempt err errorMsg rateLimitDelay' st =
     (case countdown env
             (\<lambda>i. errorMsg @ nl @ nl @ ''Retry attempt '' @ show_nat (retryAttempt + 1) @ nl @
                   ''Retrying in '' @ show_nat i @ '' seconds...'')
             (nat (finalDelay state retryAttempt err rateLimitDelay')) st of
        (Inl e, st') \<Rightarrow> (Inl e, st')
      | (Inr u, sh', t') \<Rightarrow>
          (case say env (clock sh')
                  (retry_delayed_args
                     (errorMsg @ nl @ nl @ ''Retry attempt '' @ show_nat (retryAttempt + 1) @ nl @
                      ''Retrying now...'') False) t' of
             (r, t'') \<Rightarrow> (r, sh', t'')))"

subsection \<open>The request loop\<close>

text \<open>
  What one invocation of \<open>recursivelyMakeClineRequests\<close> meets. Before the \<open>try\<close>:
  whether a statement between the abort check and the \<open>api_req_started\<close> say throws (the
  mistake-limit ask, the wait for a sub-task), the text of the \<open>api_req_started\<close>
  message, whether the mention processing or the environment details throw, and what they
  yield. Inside the \<open>try\<close>: whether a statement outside the stream
  loop throws, how the stream ends, the assistant text it delivered, whether the
  presentation sets \<open>userMessageContentReady\<close>, the tool results it collected, whether a
  tool-use block was among the assistant content, and the text of
  \<open>formatResponse.noToolsUsed()\<close>.
\<close>

datatype stream_outcome =
  Completed
| Cancelled bool
| Failed

record Round =
  r_env :: Env
  r_now :: int
  r_pre_throws :: bool
  r_requestText :: string
  r_details_throw :: bool
  r_processMentions :: "content_block list \<Rightarrow> content_block list"
  r_environmentDetails :: string
  r_try_throws :: bool
  r_stream :: stream_outcome
  r_assistantMessage :: string
  r_ready :: bool
  r_userMessageContent :: "content_block list"
  r_didToolUse :: bool
  r_noToolsUsed :: string

text \<open>
  \<open>abortTask(isAbandoned)\<close>, as far as it touches the modelled fields: the flags, the
  \<open>TaskAborted\<close> event and the guarded save of the messages.
\<close>

definition abortTask :: "Env \<Rightarrow> bool \<Rightarrow> Task \<Rightarrow> Task" where
  "abortTask env isAbandoned t =
     saveClineMessages env
       (log_event EmitTaskAborted
          ((if isAbandoned then t\<lparr>abandoned := True\<rparr> else t)\<lparr>abort := True\<rparr>))"

text \<open>
  \<open>abortStream(cancelReason)\<close>: a trailing partial message is completed, and the assistant
  turn is persisted with the note that it was interrupted.
\<close>

definition abortStream :: "Env \<Rightarrow> int \<Rightarrow> bool \<Rightarrow> string \<Rightarrow> Task \<Rightarrow> Task" where
  "abortStream env now streaming_failed assistantMessage t =
     (let t1 = (case at_last (clineMessages t) of
                  None \<Rightarrow> t
                | Some lastMessage \<Rightarrow>
                    if partial lastMessage = Some True
                    then set_last (lastMessage\<lparr>partial := Some False\<rparr>) t else t);
          t2 = snd (addToApiConversationHistory env now Assistant
                 (BlockContent
                    [TextBlock (assistantMessage @ nl @ nl @
                       (if streaming_failed then ''[Response interrupted by API Error]''
                        else ''[Response interrupted by user]''))]) t1)
      in saveClineMessages env t2)"

text \<open>
  The statements before the \<open>try\<close>: the abort check, the \<open>api_req_started\<close> message and the
  user turn added to the API history. An error here is thrown to the caller.
\<close>

definition round_entry :: "Round \<Rightarrow> content_block list \<Rightarrow> Task \<Rightarrow> (error + unit) \<times> Task" where
  "round_entry r userContent t =
     (if abort t then (Inl LoopAborted, t)
      else if r_pre_throws r then (Inl OtherFailure, t)
      else case say (r_env r) (r_now r)
                  \<lparr>say_type = ''api_req_started'', say_text = Some (r_requestText r),
                   say_images = None, say_partial = None, say_checkpoint = None,
                   say_progressStatus = None, say_isNonInteractive = None, say_metadata = None,
                   say_contextCondense = None\<rparr> t of
             (Inl e, t1) \<Rightarrow> (Inl e, t1)
           | (Inr u, t1) \<Rightarrow>
               if r_details_throw r then (Inl OtherFailure, t1)
               else
                 let finalUserContent =
                       r_processMentions r userContent @ [TextBlock (r_environmentDetails r)];
                     t2 = snd (addToApiConversationHistory (r_env r) (r_now r) User
                                 (BlockContent finalUserContent) t1)
                 in (Inr (), saveClineMessages (r_env r) t2))"

text \<open>
  The stream loop with its own \<open>catch\<close>. The stream completes; or the task is aborted from
  outside while it streams (\<open>abortTask(isAbandoned)\<close>), and the loop stops after
  \<open>abortStream\<close> unless the task is abandoned; or the stream throws, and unless the task is
  abandoned the \<open>catch\<close> aborts the task itself and calls \<open>abortStream\<close>.
\<close>

definition stream_loop :: "Round \<Rightarrow> Task \<Rightarrow> Task" where
  "stream_loop r t =
     (case r_stream r of
        Completed \<Rightarrow> t
      | Cancelled isAbandoned \<Rightarrow>
          let t1 = abortTask (r_env r) isAbandoned t
          in if \<not> abandoned t1
             then abortStream (r_env r) (r_now r) False (r_assistantMessage r) t1 else t1
      | Failed \<Rightarrow>
          if \<not> abandoned t
          then abortStream (r_env r) (r_now r) (\<not> abort t) (r_assistantMessage r)
                 (abortTask (r_env r) False t)
          else t)"

text \<open>
  How the \<open>try\<close> block of one invocation goes on after the assistant turn: with the
  recursive call on the given user content, with \<open>didEndLoop\<close> left \<open>false\<close> after an empty
  response, or never (the wait for \<open>userMessageContentReady\<close> does not end).
\<close>

datatype try_step =
  Next "content_block list"
| Empty
| NotReady

text \<open>
  The \<open>try\<close> block up to the recursive call. \<open>Inl\<close> is an exception thrown inside the
  block.
\<close>

definition round_try :: "Round \<Rightarrow> Task \<Rightarrow> (error + try_step) \<times> Task" where
  "round_try r t =
     (if r_try_throws r then (Inl OtherFailure, t)
      else
        let t1 = stream_loop r t
        in if abort t1 \<or> abandoned t1 then (Inl LoopAborted, t1)
           else
             let t2 = saveClineMessages (r_env r) t1
             in if length (r_assistantMessage r) > 0 then
                  let t3 = snd (addToApiConversationHistory (r_env r) (r_now r) Assistant
                                  (BlockContent [TextBlock (r_assistantMessage r)]) t2)
                  in if \<not> r_ready r then (Inr NotReady, t3)
                     else if \<not> r_didToolUse r then
                       (Inr (Next (r_userMessageContent r @ [TextBlock (r_noToolsUsed r)])),
                        t3\<lparr>consecutiveMistakeCount := consecutiveMistakeCount t3 + 1\<rparr>)
                     else (Inr (Next (r_userMessageContent r)), t3)
                else
                  case say (r_env r) (r_now r)
                         \<lparr>say_type = ''error'',
                          say_text = Some ''Unexpected API Response: The language model did not provide any assistant messages. This may indicate an issue with the API or the model's output.'',
                          say_images = None, say_partial = None, say_checkpoint = None,
                          say_progressStatus = None, say_isNonInteractive = None,
                          say_metadata = None, say_contextCondense = None\<rparr> t2 of
                    (Inl e, t3) \<Rightarrow> (Inl e, t3)
                  | (Inr u, t3) \<Rightarrow>
                      (Inr Empty,
                       snd (addToApiConversationHistory (r_env r) (r_now r) Assistant
                              (BlockContent [TextBlock ''Failure: I did not provide a response.'']) t3)))"

text \<open>
  \<open>recursivelyMakeClineRequests\<close> over the rounds that are described, one per invocation.
  An error before the \<open>try\<close> is thrown; an error inside it, the recursive call included,
  is caught and the invocation returns \<open>true\<close>; otherwise the invocation returns
  \<open>didEndLoop\<close>, which is \<open>false\<close> or what the recursive call returned. The result is
  \<open>None\<close> where the loop does not return within the described rounds.
\<close>

fun recursivelyMakeClineRequests ::
  "Round list \<Rightarrow> content_block list \<Rightarrow> Task \<Rightarrow> (error + bool) option \<times> Task" where
  "recursivelyMakeClineRequests [] userContent t = (None, t)"
| "recursivelyMakeClineRequests (r # rs) userContent t =
     (case round_entry r userContent t of
        (Inl e, t1) \<Rightarrow> (Some (Inl e), t1)
      | (Inr u, t1) \<Rightarrow>
          (case round_try r t1 of
             (Inl e, t2) \<Rightarrow> (Some (Inr True), t2)
           | (Inr NotReady, t2) \<Rightarrow> (None, t2)
           | (Inr Empty, t2) \<Rightarrow> (Some (Inr False), t2)
           | (Inr (Next nextUserContent), t2) \<Rightarrow>
               (case recursivelyMakeClineRequests rs nextUserContent t2 of
                  (Some (Inl e), t3) \<Rightarrow> (Some (Inr True), t3)
                | (Some (Inr recDidEndLoop), t3) \<Rightarrow> (Some (Inr recDidEndLoop), t3)
                | (None, t3) \<Rightarrow> (None, t3))))"

text \<open>A round in which nothing throws: the collaborators behave and the stream completes.\<close>

definition quiet_round :: "Round \<Rightarrow> bool" where
  "quiet_round r =
     (\<not> r_pre_throws r \<and> \<not> r_details_throw r \<and> \<not> r_try_throws r \<and>
      r_stream r = Completed \<and>
      \<not> (provider_alive (r_env r) \<and> postStateToWebview_throws (r_env r)))"

subsection \<open>Settings, tasks and rounds of the examples\<close>

text \<open>A provider state with a rate limit of ten seconds and automatic retry.\<close>

definition rate_limited_state :: ProviderState where
  "rate_limited_state =
     \<lparr>apiConfiguration =
        Some \<lparr>apiProvider = Some ''gemini'', claudeCodeMaxOutputTokens = None, modelMaxTokens = None,
              enableReasoningEffort = None, rateLimitSeconds = Some 10\<rparr>,
      autoApprovalEnabled = Some True, alwaysApproveResubmit = Some True,
      requestDelaySeconds = None, mode = Some ''code''\<rparr>"

text \<open>A task whose log holds an assistant text that stores the response id \<open>resp_1\<close>.\<close>

definition gpt5_task :: Task where
  "gpt5_task =
     fresh_task\<lparr>clineMessages :=
       [(new_message 1 Say)
          \<lparr>msg_say := Some ''text'', msg_text := Some ''Done.'',
           metadata := Some \<lparr>gpt5 = Some \<lparr>previous_response_id = Some ''resp_1''\<rparr>\<rparr>\<rparr>]\<rparr>"

text \<open>A round in which the history was condensed, and a round without context management.\<close>

definition condensing_round :: RoundInput where
  "condensing_round =
     \<lparr>ri_truncateResult =
        Some \<lparr>tr_messages = [], tr_error = None, tr_summary = Some ''Summary of the work so far.'',
              tr_cost = 0, tr_prevContextTokens = 90000, tr_newContextTokens = Some 3000\<rparr>,
      ri_modelId = ''gpt-5-2025-08-07'', ri_shouldProceed = True\<rparr>"

definition plain_round :: RoundInput where
  "plain_round =
     \<lparr>ri_truncateResult = None, ri_modelId = ''gpt-5-2025-08-07'', ri_shouldProceed = True\<rparr>"

text \<open>A 429 that carries a retry delay of seven seconds, and a plain server error.\<close>

definition retry_info_error :: ApiError where
  "retry_info_error =
     \<lparr>status = Some 429,
      errorDetails =
        Some [\<lparr>detail_type = ''type.googleapis.com/google.rpc.RetryInfo'', retryDelay = Some ''7s''\<rparr>]\<rparr>"

definition server_error :: ApiError where
  "server_error = \<lparr>status = Some 500, errorDetails = None\<rparr>"

text \<open>A round whose stream completes, with the given assistant text and a tool use.\<close>

definition round_with :: "string \<Rightarrow> Round" where
  "round_with assistantText =
     \<lparr>r_env = quiet_env, r_now = 100, r_pre_throws = False, r_requestText = ''{}'',
      r_details_throw = False, r_processMentions = (\<lambda>content. content), r_environmentDetails = ''<environment_details>'',
      r_try_throws = False, r_stream = Completed, r_assistantMessage = assistantText,
      r_ready = True, r_userMessageContent = [TextBlock ''[list_files] Result: a.ts''],
      r_didToolUse = True, r_noToolsUsed = ''You did not use a tool.''\<rparr>"

text \<open>
  The task after a rate-limit countdown of two seconds (the last request at 1000, the
  clock at 9000, a limit of ten seconds), and the three calls with which a retry wait of
  two seconds goes on: of the same kind, two partial and the final one.
\<close>

definition after_countdown :: Task where
  "after_countdown =
     snd (snd (rateLimitPhase quiet_env (Some rate_limited_state) 0
                 (\<lparr>lastGlobalApiRequestTime = Some 1000, clock = 9000\<rparr>, fresh_task)))"

definition retry_burst :: "(Env \<times> int \<times> SayArgs) list" where
  "retry_burst =
     [(quiet_env, 11000, retry_delayed_args ''Retrying in 2 seconds...'' True),
      (quiet_env, 12000, retry_delayed_args ''Retrying in 1 seconds...'' True),
      (quiet_env, 13000, retry_delayed_args ''Retrying now...'' False)]"

section \<open>Properties of the maximum output tokens\<close>

lemma truthy_num_SomeD: "truthy_num n \<Longrightarrow> \<exists>k. n = Some k \<and> k \<noteq> 0"
  by (cases n) (simp_all add: truthy_num_def)

text \<open>
  C10, as stated, at a hybrid reasoning model. The model supports a reasoning budget, the
  settings do not enable it (so no reasoning budget is used), the model id contains
  \<open>claude\<close>, and \<open>maxTokens\<close> is 64000 with a context window of 200000: the claim gives
  \<open>min(64000, 40000) = 40000\<close>, the code returns the Anthropic default (8192 here).
\<close>

theorem max_output_tokens_hybrid_counterexample:
  "getModelMaxOutputTokens 8192 16000 ''claude-sonnet-4-20250514''
     \<lparr>maxTokens = Some 64000, contextWindow = 200000,
      supportsReasoningBudget = Some True, requiredReasoningBudget = None\<rparr>
     (Some \<lparr>apiProvider = Some ''anthropic'', claudeCodeMaxOutputTokens = None,
            modelMaxTokens = None, enableReasoningEffort = None, rateLimitSeconds = None\<rparr>)
     None = Some 8192
   \<and> \<not> shouldUseReasoningBudget
       \<lparr>maxTokens = Some 64000, contextWindow = 200000,
        supportsReasoningBudget = Some True, requiredReasoningBudget = None\<rparr>
       (Some \<lparr>apiProvider = Some ''anthropic'', claudeCodeMaxOutputTokens = None,
            modelMaxTokens = None, enableReasoningEffort = None, rateLimitSeconds = None\<rparr>)
   \<and> min (64000::int) (ceil_fifth 200000) = 40000"
  by (simp add: getModelMaxOutputTokens_def shouldUseReasoningBudget_def truthy_bool_def
      isAnthropicContext_def startsWith_def ceil_fifth_def)

text \<open>
  C10 (amended). For a model that does not use the claude-code provider and does not use
  a reasoning budget: in an Anthropic context the result is the Anthropic default when
  \<open>maxTokens\<close> is unset or zero, and also whenever the model supports a reasoning budget
  (its own \<open>maxTokens\<close> is discarded); in every other case with \<open>maxTokens\<close> set and not
  zero the result is \<open>min(maxTokens, ceil(contextWindow * 0.2))\<close>, which is at most 20% of
  the context window, rounded up.
\<close>

theorem max_output_tokens_clamped:
  assumes "case settings of None \<Rightarrow> True | Some s \<Rightarrow> apiProvider s \<noteq> Some ''claude-code''"
    and "\<not> shouldUseReasoningBudget model settings"
  shows "(isAnthropicContext modelId fmt \<and>
            (\<not> truthy_num (maxTokens model) \<or> truthy_bool (supportsReasoningBudget model))
          \<longrightarrow> getModelMaxOutputTokens D C modelId model settings fmt = Some D)
       \<and> (\<forall>mt. maxTokens model = Some mt \<and> mt \<noteq> 0 \<and>
              \<not> (truthy_bool (supportsReasoningBudget model) \<and> isAnthropicContext modelId fmt)
          \<longrightarrow> getModelMaxOutputTokens D C modelId model settings fmt
                = Some (min mt (ceil_fifth (contextWindow model)))
              \<and> min mt (ceil_fifth (contextWindow model)) \<le> ceil_fifth (contextWindow model))"
  using assms
  by (cases settings) (auto simp: getModelMaxOutputTokens_def truthy_num_def split: option.splits)

theorem max_output_tokens_clamped_witness:
  "getModelMaxOutputTokens 8192 16000 ''gpt-4.1''
     \<lparr>maxTokens = Some 32768, contextWindow = 100000,
      supportsReasoningBudget = None, requiredReasoningBudget = None\<rparr>
     None (Some Openai) = Some 20000
   \<and> getModelMaxOutputTokens 8192 16000 ''claude-3-5-sonnet''
     \<lparr>maxTokens = None, contextWindow = 200000,
      supportsReasoningBudget = None, requiredReasoningBudget = None\<rparr>
     None None = Some 8192"
  using max_output_tokens_clamped [of None
      "\<lparr>maxTokens = Some 32768, contextWindow = 100000,
        supportsReasoningBudget = None, requiredReasoningBudget = None\<rparr>"
      "''gpt-4.1''" "Some Openai" 8192 16000]
    max_output_tokens_clamped [of None
      "\<lparr>maxTokens = None, contextWindow = 200000,
        supportsReasoningBudget = None, requiredReasoningBudget = None\<rparr>"
      "''claude-3-5-sonnet''" None 8192 16000]
  by (simp add: shouldUseReasoningBudget_def truthy_bool_def truthy_num_def
      isAnthropicContext_def startsWith_def ceil_fifth_def)

section \<open>Properties of the conversation state store, say and ask\<close>

text \<open>What the helpers leave unchanged.\<close>

lemma log_event_fields [simp]:
  "clineMessages (log_event e t) = clineMessages t"
  "abort (log_event e t) = abort t"
  "apiConversationHistory (log_event e t) = apiConversationHistory t"
  "lastMessageTs (log_event e t) = lastMessageTs t"
  "askResponse (log_event e t) = askResponse t"
  "events (log_event e t) = events t @ [e]"
  "blockingAsk (log_event e t) = blockingAsk t"
  "askResponseText (log_event e t) = askResponseText t"
  "askResponseImages (log_event e t) = askResponseImages t"
  "skipPrevResponseIdOnce (log_event e t) = skipPrevResponseIdOnce t"
  "abandoned (log_event e t) = abandoned t"
  by (simp_all add: log_event_def)

lemma captureMessage_fields [simp]:
  "clineMessages (captureMessage env m t) = clineMessages t"
  "abort (captureMessage env m t) = abort t"
  "apiConversationHistory (captureMessage env m t) = apiConversationHistory t"
  "lastMessageTs (captureMessage env m t) = lastMessageTs t"
  "askResponse (captureMessage env m t) = askResponse t"
  "blockingAsk (captureMessage env m t) = blockingAsk t"
  "askResponseText (captureMessage env m t) = askResponseText t"
  "askResponseImages (captureMessage env m t) = askResponseImages t"
  "skipPrevResponseIdOnce (captureMessage env m t) = skipPrevResponseIdOnce t"
  "abandoned (captureMessage env m t) = abandoned t"
  by (simp_all add: captureMessage_def)

lemma updateClineMessage_fields [simp]:
  "clineMessages (updateClineMessage env m t) = clineMessages t"
  "abort (updateClineMessage env m t) = abort t"
  "apiConversationHistory (updateClineMessage env m t) = apiConversationHistory t"
  "lastMessageTs (updateClineMessage env m t) = lastMessageTs t"
  "askResponse (updateClineMessage env m t) = askResponse t"
  "blockingAsk (updateClineMessage env m t) = blockingAsk t"
  "askResponseText (updateClineMessage env m t) = askResponseText t"
  "askResponseImages (updateClineMessage env m t) = askResponseImages t"
  "skipPrevResponseIdOnce (updateClineMessage env m t) = skipPrevResponseIdOnce t"
  "abandoned (updateClineMessage env m t) = abandoned t"
  by (simp_all add: updateClineMessage_def Let_def)

lemma saveClineMessages_fields [simp]:
  "clineMessages (saveClineMessages env t) = clineMessages t"
  "abort (saveClineMessages env t) = abort t"
  "apiConversationHistory (saveClineMessages env t) = apiConversationHistory t"
  "lastMessageTs (saveClineMessages env t) = lastMessageTs t"
  "askResponse (saveClineMessages env t) = askResponse t"
  "blockingAsk (saveClineMessages env t) = blockingAsk t"
  "askResponseText (saveClineMessages env t) = askResponseText t"
  "askResponseImages (saveClineMessages env t) = askResponseImages t"
  "skipPrevResponseIdOnce (saveClineMessages env t) = skipPrevResponseIdOnce t"
  "abandoned (saveClineMessages env t) = abandoned t"
  by (simp_all add: saveClineMessages_def saveClineMessages_body_def Let_def)

lemma saveApiConversationHistory_fields [simp]:
  "clineMessages (saveApiConversationHistory env t) = clineMessages t"
  "abort (saveApiConversationHistory env t) = abort t"
  "apiConversationHistory (saveApiConversationHistory env t) = apiConversationHistory t"
  by (simp_all add: saveApiConversationHistory_def saveApiMessages_def)

lemma say_watermark_fields [simp]:
  "clineMessages (say_watermark a n t) = clineMessages t"
  "abort (say_watermark a n t) = abort t"
  by (simp_all add: say_watermark_def)

lemma set_last_fields [simp]:
  "clineMessages (set_last m t) = butlast (clineMessages t) @ [m]"
  "abort (set_last m t) = abort t"
  by (simp_all add: set_last_def)

lemma addToClineMessages_ok:
  "\<not> (provider_alive env \<and> postStateToWebview_throws env) \<Longrightarrow>
   fst (addToClineMessages env m t) = Inr () \<and>
   clineMessages (snd (addToClineMessages env m t)) = clineMessages t @ [m] \<and>
   abort (snd (addToClineMessages env m t)) = abort t"
  by (auto simp: addToClineMessages_def Let_def)

lemma addToClineMessages_fields [simp]:
  "abort (snd (addToClineMessages env m t)) = abort t"
  "lastMessageTs (snd (addToClineMessages env m t)) = lastMessageTs t"
  "askResponse (snd (addToClineMessages env m t)) = askResponse t"
  "blockingAsk (snd (addToClineMessages env m t)) = blockingAsk t"
  by (simp_all add: addToClineMessages_def Let_def)

lemma addToClineMessages_log:
  "clineMessages (snd (addToClineMessages env m t)) = clineMessages t @ [m]"
  by (auto simp: addToClineMessages_def Let_def)

lemma isUpdating_snoc [simp]:
  "isUpdatingPreviousPartial_say k (t\<lparr>clineMessages := ms @ [m]\<rparr>) =
     (partial m = Some True \<and> msg_type m = Say \<and> msg_say m = Some k)"
  by (simp add: isUpdatingPreviousPartial_say_def at_last_def)

lemma isUpdating_iff:
  "clineMessages t = ms @ [m] \<Longrightarrow> isUpdatingPreviousPartial_say k t =
     (partial m = Some True \<and> msg_type m = Say \<and> msg_say m = Some k)"
  by (simp add: isUpdatingPreviousPartial_say_def at_last_def)

lemma say_fresh:
  assumes "\<not> abort t" "\<not> isUpdatingPreviousPartial_say (say_type a) t"
    "\<not> (provider_alive env \<and> postStateToWebview_throws env)"
    "say_partial a = Some p"
  shows "\<exists>t' m. say env now a t = (Inr (), t') \<and> clineMessages t' = clineMessages t @ [m]
           \<and> ts m = now \<and> partial m = (if p then Some True else None) \<and> msg_type m = Say
           \<and> msg_say m = Some (say_type a) \<and> \<not> abort t'"
proof -
  let ?m = "(new_message now Say)
                   \<lparr>msg_say := Some (say_type a), msg_text := say_text a,
                    images := say_images a, partial := (if p then Some True else None),
                    contextCondense := say_contextCondense a, metadata := say_metadata a\<rparr>"
  have eq: "say env now a t = addToClineMessages env ?m (say_watermark a now t)"
    using assms by (cases p) (simp_all add: say_def new_message_def)
  have "fst (addToClineMessages env ?m (say_watermark a now t)) = Inr () \<and>
   clineMessages (snd (addToClineMessages env ?m (say_watermark a now t))) = clineMessages (say_watermark a now t) @ [?m] \<and>
   abort (snd (addToClineMessages env ?m (say_watermark a now t))) = abort (say_watermark a now t)"
    using assms(3) by (rule addToClineMessages_ok)
  then show ?thesis using assms(1) unfolding eq
    by (intro exI[of _ "snd (addToClineMessages env ?m (say_watermark a now t))"] exI[of _ ?m])
       (auto simp: new_message_def prod_eq_iff)
qed

lemma say_update:
  assumes "\<not> abort t" "clineMessages t = ms @ [m]"
    "partial m = Some True" "msg_type m = Say" "msg_say m = Some (say_type a)"
    "say_partial a = Some p"
  shows "\<exists>t' m'. say env now a t = (Inr (), t') \<and> clineMessages t' = ms @ [m']
           \<and> ts m' = ts m \<and> partial m' = Some p \<and> msg_type m' = Say
           \<and> msg_say m' = Some (say_type a) \<and> \<not> abort t'"
proof -
  have upd: "isUpdatingPreviousPartial_say (say_type a) t"
    using assms by (simp add: isUpdating_iff)
  show ?thesis
  proof (cases p)
    case True
    then show ?thesis using assms upd
      by (simp add: say_def Let_def)
  next
    case False
    then show ?thesis using assms upd
      by (cases "say_metadata a") (simp_all add: say_def Let_def)
  qed
qed


lemma say_all_append:
  "say_all (xs @ ys) t =
     (case say_all xs t of (Inl e, t') \<Rightarrow> (Inl e, t') | (Inr u, t') \<Rightarrow> say_all ys t')"
  by (induction xs arbitrary: t) (auto split: prod.splits sum.splits)

lemma say_all_partials:
  assumes "\<not> abort t" "clineMessages t = ms @ [m]"
    "partial m = Some True" "msg_type m = Say" "msg_say m = Some k"
    "\<forall>c \<in> set ps. say_type (snd (snd c)) = k \<and> say_partial (snd (snd c)) = Some True"
  shows "\<exists>t' m'. say_all ps t = (Inr (), t') \<and> clineMessages t' = ms @ [m']
           \<and> ts m' = ts m \<and> partial m' = Some True \<and> msg_type m' = Say
           \<and> msg_say m' = Some k \<and> \<not> abort t'"
  using assms
proof (induction ps arbitrary: t m)
  case Nil
  then show ?case by auto
next
  case (Cons c ps)
  obtain env now a where c: "c = (env, now, a)" by (cases c) auto
  from Cons.prems c have a: "say_type a = k" "say_partial a = Some True" by auto
  from say_update [of t ms m a True env now] Cons.prems a
  obtain t1 m1 where s1: "say env now a t = (Inr (), t1)" "clineMessages t1 = ms @ [m1]"
    "ts m1 = ts m" "partial m1 = Some True" "msg_type m1 = Say" "msg_say m1 = Some k" "\<not> abort t1"
    by auto
  from Cons.IH [of t1 m1] s1 Cons.prems(6)
  obtain t' m' where "say_all ps t1 = (Inr (), t')" "clineMessages t' = ms @ [m']"
    "ts m' = ts m1" "partial m' = Some True" "msg_type m' = Say" "msg_say m' = Some k" "\<not> abort t'"
    by auto
  with s1 c show ?case by auto
qed

lemma say_final_saved:
  assumes "\<not> abort t" "\<not> (provider_alive env \<and> postStateToWebview_throws env)"
    "say_partial a = Some False" "\<not> saveTaskMessages_throws env"
  shows "savedClineMessages (snd (say env now a t)) = clineMessages (snd (say env now a t))"
  using assms
  by (cases "say_metadata a")
     (simp_all add: say_def Let_def addToClineMessages_def saveClineMessages_def
        saveClineMessages_body_def updateClineMessage_def captureMessage_def log_event_def
        say_watermark_def set_last_def)

text \<open>
  A burst of \<open>say\<close> calls of one kind, zero or more with \<open>partial = true\<close> and then one
  with \<open>partial = false\<close>, on a log that does not end in a partial say of that kind.
\<close>

lemma say_burst_fresh:
  assumes "\<not> abort t"
    and "\<not> isUpdatingPreviousPartial_say k t"
    and "\<forall>c \<in> set (ps @ [f]). say_type (snd (snd c)) = k \<and>
            \<not> (provider_alive (fst c) \<and> postStateToWebview_throws (fst c))"
    and "\<forall>c \<in> set ps. say_partial (snd (snd c)) = Some True"
    and "say_partial (snd (snd f)) = Some False"
  shows "(\<exists>t' m. say_all (ps @ [f]) t = (Inr (), t') \<and> clineMessages t' = clineMessages t @ [m]
            \<and> ts m = fst (snd (hd (ps @ [f]))) \<and> partial m \<noteq> Some True
            \<and> msg_type m = Say \<and> msg_say m = Some k)
       \<and> (\<forall>n. 0 < n \<and> n \<le> length ps \<longrightarrow>
            (\<exists>tn mn. say_all (take n ps) t = (Inr (), tn) \<and> clineMessages tn = clineMessages t @ [mn]
               \<and> ts mn = fst (snd (hd (ps @ [f]))) \<and> partial mn = Some True))
       \<and> (\<not> saveTaskMessages_throws (fst f) \<longrightarrow>
            savedClineMessages (snd (say_all (ps @ [f]) t))
              = clineMessages (snd (say_all (ps @ [f]) t)))"
proof (cases ps)
  case Nil
  obtain env now a where f: "f = (env, now, a)" by (cases f) auto
  from assms f have a: "say_type a = k" "say_partial a = Some False"
    "\<not> (provider_alive env \<and> postStateToWebview_throws env)" by auto
  from say_fresh [of t a env False now] assms(1,2) a
  obtain t' m where s: "say env now a t = (Inr (), t')" "clineMessages t' = clineMessages t @ [m]"
    "ts m = now" "partial m = None" "msg_type m = Say" "msg_say m = Some k"
    by auto
  have "savedClineMessages t' = clineMessages t'" if "\<not> saveTaskMessages_throws env"
    using say_final_saved [OF assms(1) a(3) a(2) that, of now] s(1) by simp
  with s Nil f show ?thesis by auto
next
  case (Cons c ps')
  obtain env now a where c: "c = (env, now, a)" by (cases c) auto
  obtain envf nowf af where f: "f = (envf, nowf, af)" by (cases f) auto
  from assms Cons c have a: "say_type a = k" "say_partial a = Some True"
    "\<not> (provider_alive env \<and> postStateToWebview_throws env)" by auto
  from assms f have af: "say_type af = k" "say_partial af = Some False" by auto
  from assms(4) Cons have ps': "\<forall>c \<in> set ps'. say_type (snd (snd c)) = k \<and> say_partial (snd (snd c)) = Some True"
    using assms(3) by auto
  from say_fresh [of t a env True now] assms(1,2) a
  obtain t1 m1 where s1: "say env now a t = (Inr (), t1)" "clineMessages t1 = clineMessages t @ [m1]"
    "ts m1 = now" "partial m1 = Some True" "msg_type m1 = Say" "msg_say m1 = Some k" "\<not> abort t1"
    by auto
  have prefix: "\<exists>tn mn. say_all (take j ps') t1 = (Inr (), tn) \<and> clineMessages tn = clineMessages t @ [mn]
       \<and> ts mn = now \<and> partial mn = Some True \<and> msg_type mn = Say \<and> msg_say mn = Some k \<and> \<not> abort tn" for j
  proof -
    have "\<forall>c \<in> set (take j ps'). say_type (snd (snd c)) = k \<and> say_partial (snd (snd c)) = Some True"
      using ps' by (meson in_set_takeD)
    from say_all_partials [OF s1(7) s1(2) s1(4) s1(5) s1(6) this] s1(3)
    show ?thesis by auto
  qed
  from prefix [of "length ps'"]
  obtain t2 m2 where s2: "say_all ps' t1 = (Inr (), t2)" "clineMessages t2 = clineMessages t @ [m2]"
    "ts m2 = now" "partial m2 = Some True" "msg_type m2 = Say" "msg_say m2 = Some k" "\<not> abort t2"
    by auto
  from say_update [of t2 "clineMessages t" m2 af False envf nowf] s2 af
  obtain t3 m3 where s3: "say envf nowf af t2 = (Inr (), t3)" "clineMessages t3 = clineMessages t @ [m3]"
    "ts m3 = now" "partial m3 = Some False" "msg_type m3 = Say" "msg_say m3 = Some k"
    by auto
  have whole: "say_all (ps @ [f]) t = (Inr (), t3)"
    using Cons c f s1 s2 s3 by (simp add: say_all_append)
  have first: "fst (snd (hd (ps @ [f]))) = now" using Cons c by simp
  have part1: "\<exists>t' m. say_all (ps @ [f]) t = (Inr (), t') \<and> clineMessages t' = clineMessages t @ [m]
            \<and> ts m = fst (snd (hd (ps @ [f]))) \<and> partial m \<noteq> Some True
            \<and> msg_type m = Say \<and> msg_say m = Some k"
    using whole s3 first by auto
  have part2: "\<exists>tn mn. say_all (take n ps) t = (Inr (), tn) \<and> clineMessages tn = clineMessages t @ [mn]
               \<and> ts mn = fst (snd (hd (ps @ [f]))) \<and> partial mn = Some True"
    if "0 < n" for n
  proof -
    from that obtain j where n: "n = Suc j" by (cases n) auto
    from prefix [of j] obtain tn mn where "say_all (take j ps') t1 = (Inr (), tn)"
      "clineMessages tn = clineMessages t @ [mn]" "ts mn = now" "partial mn = Some True" by auto
    then show ?thesis using n Cons c s1 first by auto
  qed
  have part3: "savedClineMessages (snd (say_all (ps @ [f]) t))
              = clineMessages (snd (say_all (ps @ [f]) t))"
    if "\<not> saveTaskMessages_throws (fst f)"
  proof -
    from assms(3) f have ok: "\<not> (provider_alive envf \<and> postStateToWebview_throws envf)" by simp
    from that f have "\<not> saveTaskMessages_throws envf" by simp
    from say_final_saved [OF s2(7) ok af(2) this, of nowf] s3(1) whole
    show ?thesis by simp
  qed
  from part1 part2 part3 show ?thesis by blast
qed

text \<open>
  The same burst on a log that ends in a partial say of that kind: every call updates that
  entry in place.
\<close>

lemma isUpdating_last:
  assumes "isUpdatingPreviousPartial_say k t"
  shows "clineMessages t = butlast (clineMessages t) @ [last (clineMessages t)]
     \<and> partial (last (clineMessages t)) = Some True
     \<and> msg_type (last (clineMessages t)) = Say
     \<and> msg_say (last (clineMessages t)) = Some k"
  using assms
  by (auto simp: isUpdatingPreviousPartial_say_def at_last_def split: if_splits)

lemma say_burst_merge:
  assumes "\<not> abort t"
    and "isUpdatingPreviousPartial_say k t"
    and "\<forall>c \<in> set (ps @ [f]). say_type (snd (snd c)) = k \<and>
            \<not> (provider_alive (fst c) \<and> postStateToWebview_throws (fst c))"
    and "\<forall>c \<in> set ps. say_partial (snd (snd c)) = Some True"
    and "say_partial (snd (snd f)) = Some False"
  shows "(\<exists>t' m. say_all (ps @ [f]) t = (Inr (), t')
            \<and> clineMessages t' = butlast (clineMessages t) @ [m]
            \<and> ts m = ts (last (clineMessages t)) \<and> partial m \<noteq> Some True
            \<and> msg_type m = Say \<and> msg_say m = Some k)
       \<and> (\<forall>n. n \<le> length ps \<longrightarrow>
            (\<exists>tn mn. say_all (take n ps) t = (Inr (), tn)
               \<and> clineMessages tn = butlast (clineMessages t) @ [mn]
               \<and> ts mn = ts (last (clineMessages t)) \<and> partial mn = Some True))
       \<and> (\<not> saveTaskMessages_throws (fst f) \<longrightarrow>
            savedClineMessages (snd (say_all (ps @ [f]) t))
              = clineMessages (snd (say_all (ps @ [f]) t)))"
proof -
  let ?ms = "butlast (clineMessages t)"
  let ?m0 = "last (clineMessages t)"
  from isUpdating_last [OF assms(2)]
  have l: "clineMessages t = ?ms @ [?m0]" "partial ?m0 = Some True" "msg_type ?m0 = Say"
    "msg_say ?m0 = Some k" by blast+
  obtain envf nowf af where f: "f = (envf, nowf, af)" by (cases f) auto
  from assms f have af: "say_type af = k" "say_partial af = Some False"
    "\<not> (provider_alive envf \<and> postStateToWebview_throws envf)" by auto
  from assms(3,4) have ps: "\<forall>c \<in> set ps. say_type (snd (snd c)) = k \<and> say_partial (snd (snd c)) = Some True"
    by auto
  have prefix: "\<exists>tn mn. say_all (take j ps) t = (Inr (), tn) \<and> clineMessages tn = ?ms @ [mn]
       \<and> ts mn = ts ?m0 \<and> partial mn = Some True \<and> msg_type mn = Say \<and> msg_say mn = Some k
       \<and> \<not> abort tn" for j
  proof -
    have "\<forall>c \<in> set (take j ps). say_type (snd (snd c)) = k \<and> say_partial (snd (snd c)) = Some True"
      using ps by (meson in_set_takeD)
    from say_all_partials [OF assms(1) l(1) l(2) l(3) l(4) this]
    show ?thesis by blast
  qed
  from prefix [of "length ps"]
  obtain t2 m2 where s2: "say_all ps t = (Inr (), t2)" "clineMessages t2 = ?ms @ [m2]"
    "ts m2 = ts ?m0" "partial m2 = Some True" "msg_type m2 = Say" "msg_say m2 = Some k" "\<not> abort t2"
    by auto
  from say_update [of t2 ?ms m2 af False envf nowf] s2 af
  obtain t3 m3 where s3: "say envf nowf af t2 = (Inr (), t3)" "clineMessages t3 = ?ms @ [m3]"
    "ts m3 = ts ?m0" "partial m3 = Some False" "msg_type m3 = Say" "msg_say m3 = Some k"
    by auto
  have whole: "say_all (ps @ [f]) t = (Inr (), t3)"
    using f s2 s3 by (simp add: say_all_append)
  have part1: "\<exists>t' m. say_all (ps @ [f]) t = (Inr (), t')
            \<and> clineMessages t' = ?ms @ [m]
            \<and> ts m = ts ?m0 \<and> partial m \<noteq> Some True
            \<and> msg_type m = Say \<and> msg_say m = Some k"
    using whole s3 by auto
  have part2: "\<exists>tn mn. say_all (take n ps) t = (Inr (), tn)
               \<and> clineMessages tn = ?ms @ [mn]
               \<and> ts mn = ts ?m0 \<and> partial mn = Some True" for n
    using prefix [of n] by blast
  have part3: "savedClineMessages (snd (say_all (ps @ [f]) t))
              = clineMessages (snd (say_all (ps @ [f]) t))"
    if "\<not> saveTaskMessages_throws (fst f)"
  proof -
    from that f have "\<not> saveTaskMessages_throws envf" by simp
    from say_final_saved [OF s2(7) af(3) af(2) this, of nowf] s3(1) whole
    show ?thesis by simp
  qed
  from part1 part2 part3 show ?thesis by blast
qed

lemma rate_limit_delay_2:
  "rateLimitDelay \<lparr>lastGlobalApiRequestTime = Some 1000, clock = 9000\<rparr> (Some rate_limited_state) = 2"
  by (simp add: rateLimitDelay_def rateLimit_def rate_limited_state_def num_or_def Let_def)

lemma after_countdown_log:
  "\<not> abort after_countdown
   \<and> map ts (clineMessages after_countdown) = [9000]
   \<and> isUpdatingPreviousPartial_say ''api_req_retry_delayed'' after_countdown"
  by (simp add: after_countdown_def rateLimitPhase_def rate_limit_delay_2 Let_def
      numeral_2_eq_2 say_def retry_delayed_args_def isUpdatingPreviousPartial_say_def at_last_def
      fresh_task_def quiet_env_def addToClineMessages_def saveClineMessages_def
      saveClineMessages_body_def captureMessage_def updateClineMessage_def log_event_def
      set_last_def new_message_def say_watermark_def truthy_bool_def)

lemma retry_burst_calls:
  "(\<forall>c \<in> set (butlast retry_burst @ [last retry_burst]).
       say_type (snd (snd c)) = ''api_req_retry_delayed'' \<and>
       \<not> (provider_alive (fst c) \<and> postStateToWebview_throws (fst c)))
   \<and> (\<forall>c \<in> set (butlast retry_burst). say_partial (snd (snd c)) = Some True)
   \<and> say_partial (snd (snd (last retry_burst))) = Some False
   \<and> butlast retry_burst @ [last retry_burst] = retry_burst"
  by (simp add: retry_burst_def retry_delayed_args_def quiet_env_def)

text \<open>
  C1, as stated, after a rate-limit countdown. The countdown says only partial messages of
  kind \<open>api_req_retry_delayed\<close> and leaves its one entry, of timestamp 9000, partial. The
  retry wait that follows is a burst of that kind: two partial calls and the final one,
  the first at 11000. The log holds one entry before the burst and one after it, so it
  gains none, and the finalized entry carries 9000, not the time of the burst's first call.
\<close>

theorem say_burst_merges_counterexample:
  "length (clineMessages after_countdown) = 1
   \<and> map ts (clineMessages after_countdown) = [9000]
   \<and> map (\<lambda>c. say_partial (snd (snd c))) retry_burst = [Some True, Some True, Some False]
   \<and> map (\<lambda>c. say_type (snd (snd c))) retry_burst
       = [''api_req_retry_delayed'', ''api_req_retry_delayed'', ''api_req_retry_delayed'']
   \<and> fst (say_all retry_burst after_countdown) = Inr ()
   \<and> length (clineMessages (snd (say_all retry_burst after_countdown))) = 1
   \<and> map ts (clineMessages (snd (say_all retry_burst after_countdown))) = [9000]
   \<and> map (\<lambda>c. fst (snd c)) retry_burst = [11000, 12000, 13000]"
proof -
  from after_countdown_log have na: "\<not> abort after_countdown"
    and l: "map ts (clineMessages after_countdown) = [9000]"
    and u: "isUpdatingPreviousPartial_say ''api_req_retry_delayed'' after_countdown"
    by blast+
  from l obtain m0 where m0: "clineMessages after_countdown = [m0]" "ts m0 = 9000"
    by (cases "clineMessages after_countdown") auto
  from m0 have len: "length (clineMessages after_countdown) = 1" by simp
  from retry_burst_calls have c: "\<forall>c \<in> set (butlast retry_burst @ [last retry_burst]).
       say_type (snd (snd c)) = ''api_req_retry_delayed'' \<and>
       \<not> (provider_alive (fst c) \<and> postStateToWebview_throws (fst c))"
    "\<forall>c \<in> set (butlast retry_burst). say_partial (snd (snd c)) = Some True"
    "say_partial (snd (snd (last retry_burst))) = Some False"
    and e: "butlast retry_burst @ [last retry_burst] = retry_burst"
    by blast+
  from say_burst_merge [OF na u c] e
  obtain t' m where r: "say_all retry_burst after_countdown = (Inr (), t')"
    "clineMessages t' = butlast (clineMessages after_countdown) @ [m]"
    "ts m = ts (last (clineMessages after_countdown))"
    by auto
  from r m0 have after: "fst (say_all retry_burst after_countdown) = Inr ()"
    "length (clineMessages (snd (say_all retry_burst after_countdown))) = 1"
    "map ts (clineMessages (snd (say_all retry_burst after_countdown))) = [9000]"
    by simp_all
  have calls: "map (\<lambda>c. say_partial (snd (snd c))) retry_burst = [Some True, Some True, Some False]"
    "map (\<lambda>c. say_type (snd (snd c))) retry_burst
       = [''api_req_retry_delayed'', ''api_req_retry_delayed'', ''api_req_retry_delayed'']"
    "map (\<lambda>c. fst (snd c)) retry_burst = [11000, 12000, 13000]"
    by (simp_all add: retry_burst_def retry_delayed_args_def)
  show ?thesis
    by (rule conjI [OF len conjI [OF l conjI [OF calls(1) conjI [OF calls(2)
          conjI [OF after(1) conjI [OF after(2) conjI [OF after(3) calls(3)]]]]]]])
qed

text \<open>
  C1 (amended). For a burst of \<open>say\<close> calls of one kind \<open>k\<close>, zero or more with
  \<open>partial = true\<close> and then one with \<open>partial = false\<close>, on a task that is not aborted and
  with a webview post that does not throw, every call returns and exactly one entry of the
  log stands for the burst. If the log does not end in a partial say of kind \<open>k\<close> when
  the burst starts, the log gains exactly one entry, and that entry carries the timestamp
  of the first call of the burst from the first partial call on. If the log does end in
  one, the burst updates and finalizes that entry in place: the log gains no entry, and
  the entry keeps, after every call, the timestamp it had. Unless the write of the final
  call throws, the persisted log is then the log in memory.
\<close>

theorem say_burst_single_entry:
  assumes "\<not> abort t"
    and "\<forall>c \<in> set (ps @ [f]). say_type (snd (snd c)) = k \<and>
            \<not> (provider_alive (fst c) \<and> postStateToWebview_throws (fst c))"
    and "\<forall>c \<in> set ps. say_partial (snd (snd c)) = Some True"
    and "say_partial (snd (snd f)) = Some False"
  shows "(\<not> isUpdatingPreviousPartial_say k t \<longrightarrow>
           (\<exists>t' m. say_all (ps @ [f]) t = (Inr (), t') \<and> clineMessages t' = clineMessages t @ [m]
              \<and> ts m = fst (snd (hd (ps @ [f]))) \<and> partial m \<noteq> Some True
              \<and> msg_type m = Say \<and> msg_say m = Some k)
         \<and> (\<forall>n. 0 < n \<and> n \<le> length ps \<longrightarrow>
              (\<exists>tn mn. say_all (take n ps) t = (Inr (), tn) \<and> clineMessages tn = clineMessages t @ [mn]
                 \<and> ts mn = fst (snd (hd (ps @ [f]))) \<and> partial mn = Some True)))
       \<and> (isUpdatingPreviousPartial_say k t \<longrightarrow>
           (\<exists>t' m. say_all (ps @ [f]) t = (Inr (), t')
              \<and> clineMessages t' = butlast (clineMessages t) @ [m]
              \<and> length (clineMessages t') = length (clineMessages t)
              \<and> ts m = ts (last (clineMessages t)) \<and> partial m \<noteq> Some True
              \<and> msg_type m = Say \<and> msg_say m = Some k)
         \<and> (\<forall>n. n \<le> length ps \<longrightarrow>
              (\<exists>tn mn. say_all (take n ps) t = (Inr (), tn)
                 \<and> clineMessages tn = butlast (clineMessages t) @ [mn]
                 \<and> ts mn = ts (last (clineMessages t)) \<and> partial mn = Some True)))
       \<and> (\<not> saveTaskMessages_throws (fst f) \<longrightarrow>
            savedClineMessages (snd (say_all (ps @ [f]) t))
              = clineMessages (snd (say_all (ps @ [f]) t)))"
proof (cases "isUpdatingPreviousPartial_say k t")
  case False
  from say_burst_fresh [OF assms(1) False assms(2,3,4)] False
  show ?thesis by blast
next
  case True
  from isUpdating_last [OF True] have ne: "clineMessages t \<noteq> []" by auto
  note m = say_burst_merge [OF assms(1) True assms(2,3,4)]
  from m obtain t' m' where r: "say_all (ps @ [f]) t = (Inr (), t')"
    "clineMessages t' = butlast (clineMessages t) @ [m']"
    "ts m' = ts (last (clineMessages t))" "partial m' \<noteq> Some True"
    "msg_type m' = Say" "msg_say m' = Some k"
    by blast
  from r(2) ne have "length (clineMessages t') = length (clineMessages t)" by simp
  with r have a: "\<exists>t' m. say_all (ps @ [f]) t = (Inr (), t')
              \<and> clineMessages t' = butlast (clineMessages t) @ [m]
              \<and> length (clineMessages t') = length (clineMessages t)
              \<and> ts m = ts (last (clineMessages t)) \<and> partial m \<noteq> Some True
              \<and> msg_type m = Say \<and> msg_say m = Some k"
    by blast
  from a m True show ?thesis by blast
qed

theorem say_burst_single_entry_witness:
  "\<not> abort fresh_task \<and> \<not> isUpdatingPreviousPartial_say ''text'' fresh_task \<and>
   (\<exists>t' m. say_all ([(quiet_env, 100, say_args ''text'' ''Hel'' (Some True)),
                      (quiet_env, 150, say_args ''text'' ''Hello'' (Some True))] @
                     [(quiet_env, 200, say_args ''text'' ''Hello.'' (Some False))]) fresh_task
              = (Inr (), t')
            \<and> clineMessages t' = clineMessages fresh_task @ [m]
            \<and> ts m = 100 \<and> partial m \<noteq> Some True \<and> msg_type m = Say \<and> msg_say m = Some ''text'')
   \<and> savedClineMessages
        (snd (say_all ([(quiet_env, 100, say_args ''text'' ''Hel'' (Some True)),
                        (quiet_env, 150, say_args ''text'' ''Hello'' (Some True))] @
                       [(quiet_env, 200, say_args ''text'' ''Hello.'' (Some False))]) fresh_task))
     = clineMessages
        (snd (say_all ([(quiet_env, 100, say_args ''text'' ''Hel'' (Some True)),
                        (quiet_env, 150, say_args ''text'' ''Hello'' (Some True))] @
                       [(quiet_env, 200, say_args ''text'' ''Hello.'' (Some False))]) fresh_task))
   \<and> \<not> abort after_countdown
   \<and> isUpdatingPreviousPartial_say ''api_req_retry_delayed'' after_countdown
   \<and> (\<exists>t' m. say_all (butlast retry_burst @ [last retry_burst]) after_countdown = (Inr (), t')
            \<and> clineMessages t' = butlast (clineMessages after_countdown) @ [m]
            \<and> length (clineMessages t') = length (clineMessages after_countdown)
            \<and> ts m = ts (last (clineMessages after_countdown)) \<and> partial m \<noteq> Some True
            \<and> msg_type m = Say \<and> msg_say m = Some ''api_req_retry_delayed'')"
proof -
  have h1: "\<not> abort fresh_task" by (simp add: fresh_task_def)
  have h2: "\<not> isUpdatingPreviousPartial_say ''text'' fresh_task"
    by (simp add: fresh_task_def isUpdatingPreviousPartial_say_def at_last_def)
  have h3: "\<forall>c \<in> set ([(quiet_env, 100, say_args ''text'' ''Hel'' (Some True)),
                      (quiet_env, 150, say_args ''text'' ''Hello'' (Some True))] @
                     [(quiet_env, 200, say_args ''text'' ''Hello.'' (Some False))]).
            say_type (snd (snd c)) = ''text'' \<and>
            \<not> (provider_alive (fst c) \<and> postStateToWebview_throws (fst c))"
    by (simp add: say_args_def quiet_env_def)
  have h4: "\<forall>c \<in> set [(quiet_env, 100, say_args ''text'' ''Hel'' (Some True)),
                      (quiet_env, 150, say_args ''text'' ''Hello'' (Some True))].
            say_partial (snd (snd c)) = Some True"
    by (simp add: say_args_def)
  have h5: "say_partial (snd (snd (quiet_env, 200::int, say_args ''text'' ''Hello.'' (Some False)))) = Some False"
    by (simp add: say_args_def)
  have h6: "\<not> saveTaskMessages_throws (fst (quiet_env, 200::int, say_args ''text'' ''Hello.'' (Some False)))"
    by (simp add: quiet_env_def)
  note r = say_burst_single_entry [OF h1 h3 h4 h5]
  from r have fresh: "\<not> isUpdatingPreviousPartial_say ''text'' fresh_task \<longrightarrow>
           (\<exists>t' m. say_all ([(quiet_env, 100, say_args ''text'' ''Hel'' (Some True)),
                      (quiet_env, 150, say_args ''text'' ''Hello'' (Some True))] @
                     [(quiet_env, 200, say_args ''text'' ''Hello.'' (Some False))]) fresh_task
              = (Inr (), t')
              \<and> clineMessages t' = clineMessages fresh_task @ [m]
              \<and> ts m = 100 \<and> partial m \<noteq> Some True
              \<and> msg_type m = Say \<and> msg_say m = Some ''text'')"
    by simp
  from fresh h2 have a: "\<exists>t' m. say_all ([(quiet_env, 100, say_args ''text'' ''Hel'' (Some True)),
                      (quiet_env, 150, say_args ''text'' ''Hello'' (Some True))] @
                     [(quiet_env, 200, say_args ''text'' ''Hello.'' (Some False))]) fresh_task
              = (Inr (), t')
              \<and> clineMessages t' = clineMessages fresh_task @ [m]
              \<and> ts m = 100 \<and> partial m \<noteq> Some True
              \<and> msg_type m = Say \<and> msg_say m = Some ''text''"
    by (rule mp)
  from r have "\<not> saveTaskMessages_throws (fst (quiet_env, 200::int, say_args ''text'' ''Hello.'' (Some False)))
      \<longrightarrow> savedClineMessages
        (snd (say_all ([(quiet_env, 100, say_args ''text'' ''Hel'' (Some True)),
                        (quiet_env, 150, say_args ''text'' ''Hello'' (Some True))] @
                       [(quiet_env, 200, say_args ''text'' ''Hello.'' (Some False))]) fresh_task))
     = clineMessages
        (snd (say_all ([(quiet_env, 100, say_args ''text'' ''Hel'' (Some True)),
                        (quiet_env, 150, say_args ''text'' ''Hello'' (Some True))] @
                       [(quiet_env, 200, say_args ''text'' ''Hello.'' (Some False))]) fresh_task))"
    by (rule conjunct2 [THEN conjunct2])
  then have c: "savedClineMessages
        (snd (say_all ([(quiet_env, 100, say_args ''text'' ''Hel'' (Some True)),
                        (quiet_env, 150, say_args ''text'' ''Hello'' (Some True))] @
                       [(quiet_env, 200, say_args ''text'' ''Hello.'' (Some False))]) fresh_task))
     = clineMessages
        (snd (say_all ([(quiet_env, 100, say_args ''text'' ''Hel'' (Some True)),
                        (quiet_env, 150, say_args ''text'' ''Hello'' (Some True))] @
                       [(quiet_env, 200, say_args ''text'' ''Hello.'' (Some False))]) fresh_task))"
    using h6 by (rule mp)
  from after_countdown_log have na: "\<not> abort after_countdown"
    and u: "isUpdatingPreviousPartial_say ''api_req_retry_delayed'' after_countdown"
    by blast+
  from retry_burst_calls have k: "\<forall>c \<in> set (butlast retry_burst @ [last retry_burst]).
       say_type (snd (snd c)) = ''api_req_retry_delayed'' \<and>
       \<not> (provider_alive (fst c) \<and> postStateToWebview_throws (fst c))"
    "\<forall>c \<in> set (butlast retry_burst). say_partial (snd (snd c)) = Some True"
    "say_partial (snd (snd (last retry_burst))) = Some False"
    by blast+
  note q = say_burst_single_entry [OF na k]
  from q have "isUpdatingPreviousPartial_say ''api_req_retry_delayed'' after_countdown \<longrightarrow>
           (\<exists>t' m. say_all (butlast retry_burst @ [last retry_burst]) after_countdown = (Inr (), t')
              \<and> clineMessages t' = butlast (clineMessages after_countdown) @ [m]
              \<and> length (clineMessages t') = length (clineMessages after_countdown)
              \<and> ts m = ts (last (clineMessages after_countdown)) \<and> partial m \<noteq> Some True
              \<and> msg_type m = Say \<and> msg_say m = Some ''api_req_retry_delayed'')"
    by simp
  then have d: "\<exists>t' m. say_all (butlast retry_burst @ [last retry_burst]) after_countdown = (Inr (), t')
              \<and> clineMessages t' = butlast (clineMessages after_countdown) @ [m]
              \<and> length (clineMessages t') = length (clineMessages after_countdown)
              \<and> ts m = ts (last (clineMessages after_countdown)) \<and> partial m \<noteq> Some True
              \<and> msg_type m = Say \<and> msg_say m = Some ''api_req_retry_delayed''"
    using u by (rule mp)
  show ?thesis
    by (rule conjI [OF h1 conjI [OF h2 conjI [OF a conjI [OF c conjI [OF na conjI [OF u d]]]]]])
qed

text \<open>
  C4. On a task whose abort flag is set, \<open>ask\<close> throws, whatever its kind and arguments:
  the task is returned as it was (no message, no event) and nothing of what would run
  during a wait is run. The same holds for \<open>say\<close>.
\<close>

theorem aborted_ask_and_say_throw:
  "abort t \<Longrightarrow>
     ask env now a others t = (Some (Inl AskAborted), t) \<and>
     say env' now' a' t = (Inl SayAborted, t)"
  by (simp add: ask_def ask_post_def say_def)

theorem aborted_ask_and_say_throw_witness:
  "abort (fresh_task\<lparr>abort := True\<rparr>) \<and>
   ask quiet_env 10 (ask_args ''followup'' ''Which file?'' None)
       [handleWebviewAskResponse yesButtonClicked None None] (fresh_task\<lparr>abort := True\<rparr>)
     = (Some (Inl AskAborted), fresh_task\<lparr>abort := True\<rparr>) \<and>
   say quiet_env 10 (say_args ''text'' ''Hello'' None) (fresh_task\<lparr>abort := True\<rparr>)
     = (Inl SayAborted, fresh_task\<lparr>abort := True\<rparr>)"
proof -
  have h: "abort (fresh_task\<lparr>abort := True\<rparr>)" by simp
  from aborted_ask_and_say_throw [OF h] h show ?thesis by blast
qed

text \<open>The wait of \<open>ask\<close>.\<close>

lemma pWaitFor_ask_append:
  "pWaitFor_ask askTs xs t = (b, s) \<Longrightarrow>
   pWaitFor_ask askTs (xs @ ys) t = (if b then (True, s) else pWaitFor_ask askTs ys s)"
proof (induction xs arbitrary: t)
  case Nil
  then show ?case by (cases ys) auto
next
  case (Cons f xs)
  then show ?case by (auto split: if_splits)
qed

lemma pWaitFor_ask_woken:
  "pWaitFor_ask askTs xs t = (True, s) \<Longrightarrow> ask_ready askTs s"
  by (induction xs arbitrary: t) (auto split: if_splits)

lemma pWaitFor_ask_step:
  "\<not> ask_ready askTs s \<Longrightarrow> ask_ready askTs (g s) \<Longrightarrow> pWaitFor_ask askTs (g # rest) s = (True, g s)"
  by (cases rest) auto

lemma pWaitFor_ask_pending:
  "pWaitFor_ask askTs xs t = (False, s) \<Longrightarrow> \<not> ask_ready askTs s"
  by (induction xs arbitrary: t) (auto split: if_splits)

text \<open>
  C8. An \<open>ask\<close> that returns a result was woken at a check where a response was there
  and the watermark \<open>lastMessageTs\<close> was still the ask's own timestamp; the result carries
  that response. And when, during the wait, something moves the watermark to another
  timestamp (with or without a response), the next check ends the wait and the ask throws
  the ignored-ask error.
\<close>

theorem ask_superseded_or_answered:
  "(ask env now a others t = (Some (Inr r), t') \<longrightarrow>
      (\<exists>askTs t1 t3. ask_post env now a t = (Inr askTs, t1) \<and>
          pWaitFor_ask askTs others (ask_idle env a askTs t1) = (True, t3) \<and>
          askResponse t3 \<noteq> None \<and> response r = askResponse t3 \<and>
          lastMessageTs t3 = Some askTs))
   \<and> (ask_post env now a t = (Inr askTs, t1) \<and>
      pWaitFor_ask askTs others1 (ask_idle env a askTs t1) = (False, s) \<and>
      lastMessageTs (g s) \<noteq> Some askTs \<longrightarrow>
        ask env now a (others1 @ g # rest) t = (Some (Inl AskIgnored), g s))"
proof (intro conjI impI)
  assume ret: "ask env now a others t = (Some (Inr r), t')"
  then obtain askTs t1 where post: "ask_post env now a t = (Inr askTs, t1)"
    by (auto simp: ask_def split: prod.splits sum.splits)
  from ret post obtain t3 where
    woke: "pWaitFor_ask askTs others (ask_idle env a askTs t1) = (True, t3)"
    by (auto simp: ask_def split: prod.splits bool.splits)
  from ret post woke have wm: "lastMessageTs t3 = Some askTs"
    by (auto simp: ask_def split: if_splits)
  from ret post woke wm have r: "response r = askResponse t3"
    by (auto simp: ask_def Let_def)
  from pWaitFor_ask_woken [OF woke] wm have "askResponse t3 \<noteq> None"
    by (simp add: ask_ready_def)
  with post woke wm r
  show "\<exists>askTs t1 t3. ask_post env now a t = (Inr askTs, t1) \<and>
          pWaitFor_ask askTs others (ask_idle env a askTs t1) = (True, t3) \<and>
          askResponse t3 \<noteq> None \<and> response r = askResponse t3 \<and>
          lastMessageTs t3 = Some askTs"
    by blast
next
  assume h: "ask_post env now a t = (Inr askTs, t1) \<and>
      pWaitFor_ask askTs others1 (ask_idle env a askTs t1) = (False, s) \<and>
      lastMessageTs (g s) \<noteq> Some askTs"
  then have pend: "\<not> ask_ready askTs s" using pWaitFor_ask_pending by blast
  from h have rdy: "ask_ready askTs (g s)" by (simp add: ask_ready_def)
  from h have "pWaitFor_ask askTs (others1 @ g # rest) (ask_idle env a askTs t1)
      = pWaitFor_ask askTs (g # rest) s"
    using pWaitFor_ask_append [of askTs others1 "ask_idle env a askTs t1" False s "g # rest"]
    by simp
  also have "\<dots> = (True, g s)" using pend rdy by (rule pWaitFor_ask_step)
  finally show "ask env now a (others1 @ g # rest) t = (Some (Inl AskIgnored), g s)"
    using h by (simp add: ask_def)
qed

theorem ask_superseded_or_answered_witness:
  "(\<exists>askTs t1 t3.
       ask_post quiet_env 10 (ask_args ''followup'' ''Which file?'' None) fresh_task = (Inr askTs, t1) \<and>
       pWaitFor_ask askTs [id, handleWebviewAskResponse messageResponse (Some ''a.ts'') None]
          (ask_idle quiet_env (ask_args ''followup'' ''Which file?'' None) askTs t1) = (True, t3) \<and>
       askResponse t3 \<noteq> None \<and> Some messageResponse = askResponse t3 \<and>
       lastMessageTs t3 = Some askTs)
   \<and> fst (ask quiet_env 10 (ask_args ''followup'' ''Which file?'' None)
        ([id] @ (\<lambda>t. snd (say quiet_env 11 (say_args ''text'' ''Working'' None) t)) #
           [handleWebviewAskResponse messageResponse (Some ''a.ts'') None])
        fresh_task) = Some (Inl AskIgnored)"
proof -
  let ?a = "ask_args ''followup'' ''Which file?'' None"
  let ?h = "handleWebviewAskResponse messageResponse (Some ''a.ts'') None"
  let ?g = "\<lambda>t. snd (say quiet_env 11 (say_args ''text'' ''Working'' None) t)"
  let ?r = "\<lparr>response = Some messageResponse, result_text = Some ''a.ts'', result_images = None\<rparr>"
  have "\<exists>t1. ask_post quiet_env 10 ?a fresh_task = (Inr 10, t1)
      \<and> askResponse t1 = None \<and> lastMessageTs t1 = Some 10 \<and> \<not> abort t1"
    by (simp add: ask_post_def ask_args_def fresh_task_def quiet_env_def
        addToClineMessages_def Let_def clear_askResponse_def)
  then obtain t1 where post: "ask_post quiet_env 10 ?a fresh_task = (Inr 10, t1)"
    and t1: "askResponse t1 = None" "lastMessageTs t1 = Some 10" "\<not> abort t1"
    by blast
  have idle: "ask_idle quiet_env ?a 10 t1 = t1"
    by (simp add: ask_idle_def quiet_env_def)
  have woke: "pWaitFor_ask 10 [id, ?h] t1 = (True, ?h t1)"
    using t1 by (simp add: ask_ready_def handleWebviewAskResponse_def)
  have "\<exists>t'. ask quiet_env 10 ?a [id, ?h] fresh_task = (Some (Inr ?r), t')"
    using t1 by (simp add: ask_def post idle ask_ready_def handleWebviewAskResponse_def Let_def clear_askResponse_def)
  then obtain t' where ret: "ask quiet_env 10 ?a [id, ?h] fresh_task = (Some (Inr ?r), t')"
    by blast
  have pend: "pWaitFor_ask 10 [id] (ask_idle quiet_env ?a 10 t1) = (False, t1)"
    using t1 by (simp add: idle ask_ready_def)
  have moved: "lastMessageTs (?g t1) \<noteq> Some 10"
    using t1 by (simp add: say_def say_args_def say_watermark_def truthy_bool_def)
  note inst = ask_superseded_or_answered [of quiet_env 10 ?a "[id, ?h]" fresh_task ?r t'
      10 t1 "[id]" t1 ?g "[?h]"]
  from inst ret have part1: "\<exists>askTs t1 t3.
       ask_post quiet_env 10 ?a fresh_task = (Inr askTs, t1) \<and>
       pWaitFor_ask askTs [id, ?h] (ask_idle quiet_env ?a askTs t1) = (True, t3) \<and>
       askResponse t3 \<noteq> None \<and> response ?r = askResponse t3 \<and>
       lastMessageTs t3 = Some askTs"
    by blast
  from inst post pend moved
  have part2: "ask quiet_env 10 ?a ([id] @ ?g # [?h]) fresh_task = (Some (Inl AskIgnored), ?g t1)"
    by blast
  from part1 part2 show ?thesis by simp
qed

text \<open>
  C9. Whatever the persistence layer does, the append and overwrite operations of the API
  history and \<open>overwriteClineMessages\<close> return normally with the in-memory log updated;
  \<open>addToClineMessages\<close> has updated the in-memory log and returns normally unless the
  webview post throws. A write that throws is caught and logged to the console by the
  save function.
\<close>

theorem persistence_failure_is_caught:
  "fst (addToApiConversationHistory env now r c t) = Inr ()
   \<and> apiConversationHistory (snd (addToApiConversationHistory env now r c t))
       = apiConversationHistory t @ [\<lparr>role = r, content = c, api_ts = Some now\<rparr>]
   \<and> fst (overwriteApiConversationHistory env h t) = Inr ()
   \<and> apiConversationHistory (snd (overwriteApiConversationHistory env h t)) = h
   \<and> fst (overwriteClineMessages env ms t) = Inr ()
   \<and> clineMessages (snd (overwriteClineMessages env ms t)) = ms
   \<and> clineMessages (snd (addToClineMessages env m t)) = clineMessages t @ [m]
   \<and> (\<not> (provider_alive env \<and> postStateToWebview_throws env)
        \<longrightarrow> fst (addToClineMessages env m t) = Inr ())
   \<and> (saveApiMessages_throws env \<longrightarrow>
        saveApiConversationHistory env t
          = log_event (ConsoleError ''Failed to save API conversation history:'') t)
   \<and> (fst (saveClineMessages_body env t) = Inl e \<longrightarrow>
        saveClineMessages env t
          = log_event (ConsoleError ''Failed to save Roo messages:'') (snd (saveClineMessages_body env t)))
   \<and> (saveTaskMessages_throws env \<longrightarrow> fst (saveClineMessages_body env t) = Inl OtherFailure)"
proof -
  have a: "clineMessages (snd (addToClineMessages env m t)) = clineMessages t @ [m]"
    by (rule addToClineMessages_log)
  have b: "\<not> (provider_alive env \<and> postStateToWebview_throws env)
        \<longrightarrow> fst (addToClineMessages env m t) = Inr ()"
    using addToClineMessages_ok by blast
  have c: "fst (saveClineMessages_body env t) = Inl e \<longrightarrow>
        saveClineMessages env t
          = log_event (ConsoleError ''Failed to save Roo messages:'') (snd (saveClineMessages_body env t))"
    by (cases "saveClineMessages_body env t") (auto simp: saveClineMessages_def)
  have d: "saveTaskMessages_throws env \<longrightarrow> fst (saveClineMessages_body env t) = Inl OtherFailure"
    by (simp add: saveClineMessages_body_def)
  have e: "saveApiMessages_throws env \<longrightarrow>
        saveApiConversationHistory env t
          = log_event (ConsoleError ''Failed to save API conversation history:'') t"
    by (simp add: saveApiConversationHistory_def saveApiMessages_def)
  show ?thesis using a b c d e
    by (simp add: addToApiConversationHistory_def overwriteApiConversationHistory_def
      overwriteClineMessages_def)
qed

theorem persistence_failure_is_caught_witness:
  "saveApiMessages_throws failing_disk_env \<and> saveTaskMessages_throws failing_disk_env
   \<and> fst (addToApiConversationHistory failing_disk_env 5 User (StringContent ''hi'') fresh_task) = Inr ()
   \<and> apiConversationHistory (snd (addToApiConversationHistory failing_disk_env 5 User (StringContent ''hi'') fresh_task))
       = [\<lparr>role = User, content = StringContent ''hi'', api_ts = Some 5\<rparr>]
   \<and> fst (addToClineMessages failing_disk_env (new_message 5 Say) fresh_task) = Inr ()
   \<and> clineMessages (snd (addToClineMessages failing_disk_env (new_message 5 Say) fresh_task))
       = [new_message 5 Say]
   \<and> saveApiConversationHistory failing_disk_env fresh_task
       = log_event (ConsoleError ''Failed to save API conversation history:'') fresh_task
   \<and> saveClineMessages failing_disk_env fresh_task
       = log_event (ConsoleError ''Failed to save Roo messages:'') fresh_task"
proof -
  have h: "saveApiMessages_throws failing_disk_env \<and> saveTaskMessages_throws failing_disk_env
     \<and> \<not> (provider_alive failing_disk_env \<and> postStateToWebview_throws failing_disk_env)"
    by (simp add: failing_disk_env_def quiet_env_def)
  have body: "saveClineMessages_body failing_disk_env fresh_task = (Inl OtherFailure, fresh_task)"
    by (simp add: saveClineMessages_body_def failing_disk_env_def)
  have fr: "apiConversationHistory fresh_task = [] \<and> clineMessages fresh_task = []"
    by (simp add: fresh_task_def)
  from persistence_failure_is_caught [of failing_disk_env 5 User "StringContent ''hi''" fresh_task
      "[]" "[]" "new_message 5 Say" OtherFailure] h body fr
  show ?thesis by simp
qed

section \<open>Properties of resuming from history\<close>

lemma without_tool_block_plain:
  "\<not> is_tool_use (without_tool_block g b) \<and> \<not> is_tool_result (without_tool_block g b)"
  by (cases b) (simp_all add: Let_def)

lemma rewritten_blocks_plain:
  assumes "m \<in> set (conversationWithoutToolBlocks f h)" "b \<in> set (blocks_of (content m))"
  shows "\<not> is_tool_use b \<and> \<not> is_tool_result b"
proof -
  from assms(1) obtain m0 where m0: "m0 \<in> set h"
    and m: "m = (case content m0 of
              BlockContent bs \<Rightarrow> m0\<lparr>content := BlockContent (map (without_tool_block (\<lambda>i. f i h)) bs)\<rparr>
            | StringContent s \<Rightarrow> m0)"
    by (auto simp: conversationWithoutToolBlocks_def)
  show ?thesis
  proof (cases "content m0")
    case (StringContent s)
    with m assms(2) show ?thesis by auto
  next
    case (BlockContent bs)
    with m assms(2) show ?thesis by (auto simp: without_tool_block_plain)
  qed
qed

lemma rewritten_no_tool_use:
  "m \<in> set (conversationWithoutToolBlocks f h) \<Longrightarrow> filter is_tool_use (blocks_of (content m)) = []"
  using rewritten_blocks_plain by (auto simp: filter_empty_conv)

lemma rewritten_no_tool_result:
  "m \<in> set (conversationWithoutToolBlocks f h) \<Longrightarrow> filter is_tool_result (blocks_of (content m)) = []"
  using rewritten_blocks_plain by (auto simp: filter_empty_conv)

lemma modifiedOldUserContent_plain:
  assumes plain: "\<forall>m \<in> set ex. filter is_tool_use (blocks_of (content m)) = []
                     \<and> filter is_tool_result (blocks_of (content m)) = []"
    and res: "modifiedOldUserContent ex = Inr (h', c)"
  shows "filter is_tool_result c = [] \<and> set h' \<subseteq> set ex"
proof -
  from res have ne: "ex \<noteq> []" by (auto simp: modifiedOldUserContent_def split: if_splits)
  then have lastin: "last ex \<in> set ex" by simp
  with plain have l: "filter is_tool_use (blocks_of (content (last ex))) = []"
    "filter is_tool_result (blocks_of (content (last ex))) = []" by auto
  have bl: "set (butlast ex) \<subseteq> set ex" by (meson in_set_butlastD subsetI)
  show ?thesis
  proof (cases "role (last ex) = Assistant")
    case True
    with res ne l show ?thesis
      by (auto simp: modifiedOldUserContent_def Let_def list_ex_iff filter_empty_conv split: if_splits)
  next
    case False
    show ?thesis
    proof (cases "length ex \<ge> 2")
      case True
      then have "ex ! (length ex - 2) \<in> set ex" by simp
      with plain have p: "filter is_tool_use (blocks_of (content (ex ! (length ex - 2)))) = []" by auto
      from res ne False True l p bl show ?thesis
        by (auto simp: modifiedOldUserContent_def Let_def split: if_splits)
    next
      case F2: False
      from res ne False F2 l bl show ?thesis
        by (auto simp: modifiedOldUserContent_def Let_def split: if_splits)
    qed
  qed
qed

lemma list_ex_tool_id:
  "list_ex (\<lambda>result. tool_id result = tool_id u) rs = (tool_id u \<in> tool_id ` set rs)"
  by (induction rs) auto

text \<open>
  C2, as stated, on a history whose last assistant turn holds one tool-use block with no
  tool-result: the claim asks for one interrupted tool-result in the user content of the
  next request. The resume path has rewritten the tool-use block as text before it looks
  for tool-use blocks, so it synthesizes none: the user content is the resumption notice
  alone, and the overwritten history holds the call as text.
\<close>

theorem resume_no_interrupted_result_counterexample:
  "filter is_tool_use (blocks_of (content (last interrupted_history)))
     = [ToolUseBlock ''toolu_01'' ''list_files'' [(''path'', ''.'')]]
   \<and> fst (resumeTaskFromHistory (\<lambda>i h. ''list_files'') (map ImageBlock) quiet_env None None
           (fresh_task\<lparr>savedApiMessages := interrupted_history\<rparr>))
     = Inr [TextBlock ''[TASK RESUMPTION] Resuming task...'']
   \<and> apiConversationHistory
        (snd (resumeTaskFromHistory (\<lambda>i h. ''list_files'') (map ImageBlock) quiet_env None None
           (fresh_task\<lparr>savedApiMessages := interrupted_history\<rparr>)))
     = [\<lparr>role = User, content = BlockContent [TextBlock ''<task>list files</task>''], api_ts = Some 1\<rparr>,
        \<lparr>role = Assistant,
         content = BlockContent [TextBlock ''Listing.'',
           TextBlock (''<list_files>'' @ nl @ ''<path>'' @ nl @ ''.'' @ nl @ ''</path>'' @ nl @ ''</list_files>'')],
         api_ts = Some 2\<rparr>]"
  by (simp add: interrupted_history_def resumeTaskFromHistory_def conversationWithoutToolBlocks_def
      modifiedOldUserContent_def overwriteApiConversationHistory_def saveApiConversationHistory_def
      saveApiMessages_def quiet_env_def fresh_task_def Let_def)

text \<open>
  C2 (amended). The resume path first rewrites every tool-use and every tool-result block
  of the persisted history as a text block. So the user content it sends with the next
  request holds no tool-result block (none is synthesized) and the history it keeps holds
  no tool-use block. The synthesis that follows the rewrite, taken on its own, yields for
  a history that still holds tool-use blocks one interrupted tool-result for each tool-use
  block of the last assistant turn that has no tool-result with its \<open>tool_use_id\<close> in the
  user turn after it (for each tool-use block when the assistant turn is the last).
\<close>

theorem resume_tool_results:
  "(resumeTaskFromHistory f imageBlocks env responseText responseImages t = (Inr newUserContent, t')
      \<and> (\<forall>imgs. filter is_tool_result (imageBlocks imgs) = []) \<longrightarrow>
        filter is_tool_result newUserContent = [] \<and>
        (\<forall>m \<in> set (apiConversationHistory t'). filter is_tool_use (blocks_of (content m)) = []))
   \<and> (ex \<noteq> [] \<and> role (last ex) = Assistant \<longrightarrow>
        modifiedOldUserContent ex
          = Inr (ex, map interrupted (filter is_tool_use (blocks_of (content (last ex))))))
   \<and> (length ex \<ge> 2 \<and> role (last ex) = User \<and> role (ex ! (length ex - 2)) = Assistant \<longrightarrow>
        modifiedOldUserContent ex
          = Inr (butlast ex,
                 blocks_of (content (last ex)) @
                 map interrupted
                   (filter (\<lambda>toolUse. tool_id toolUse \<notin>
                              tool_id ` set (filter is_tool_result (blocks_of (content (last ex)))))
                      (filter is_tool_use (blocks_of (content (ex ! (length ex - 2))))))))"
proof -
  have part1: "filter is_tool_result newUserContent = [] \<and>
        (\<forall>m \<in> set (apiConversationHistory t'). filter is_tool_use (blocks_of (content m)) = [])"
    if a: "resumeTaskFromHistory f imageBlocks env responseText responseImages t = (Inr newUserContent, t')
      \<and> (\<forall>imgs. filter is_tool_result (imageBlocks imgs) = [])"
  proof -
    let ?conv = "conversationWithoutToolBlocks f (savedApiMessages t)"
    from a obtain h' c where m: "modifiedOldUserContent ?conv = Inr (h', c)"
      by (auto simp: resumeTaskFromHistory_def Let_def split: sum.splits)
    have plain: "\<forall>m \<in> set ?conv. filter is_tool_use (blocks_of (content m)) = []
                     \<and> filter is_tool_result (blocks_of (content m)) = []"
      using rewritten_no_tool_use rewritten_no_tool_result by blast
    from modifiedOldUserContent_plain [OF plain m]
    have c: "filter is_tool_result c = []" and h': "set h' \<subseteq> set ?conv" by auto
    from a m have t': "apiConversationHistory t' = h'"
      by (auto simp: resumeTaskFromHistory_def Let_def overwriteApiConversationHistory_def
          saveApiConversationHistory_def saveApiMessages_def log_event_def
          split: option.splits if_splits)
    from a m c have "filter is_tool_result newUserContent = []"
      by (auto simp: resumeTaskFromHistory_def Let_def overwriteApiConversationHistory_def
          split: option.splits if_splits)
    moreover from t' h' plain
    have "\<forall>m \<in> set (apiConversationHistory t'). filter is_tool_use (blocks_of (content m)) = []"
      by blast
    ultimately show ?thesis by blast
  qed
  have part2: "modifiedOldUserContent ex
          = Inr (ex, map interrupted (filter is_tool_use (blocks_of (content (last ex)))))"
    if "ex \<noteq> [] \<and> role (last ex) = Assistant"
    using that by (auto simp: modifiedOldUserContent_def Let_def list_ex_iff filter_empty_conv)
  have part3: "modifiedOldUserContent ex
          = Inr (butlast ex,
                 blocks_of (content (last ex)) @
                 map interrupted
                   (filter (\<lambda>toolUse. tool_id toolUse \<notin>
                              tool_id ` set (filter is_tool_result (blocks_of (content (last ex)))))
                      (filter is_tool_use (blocks_of (content (ex ! (length ex - 2)))))))"
    if "length ex \<ge> 2 \<and> role (last ex) = User \<and> role (ex ! (length ex - 2)) = Assistant"
    using that by (auto simp: modifiedOldUserContent_def Let_def list_ex_tool_id filter_empty_conv)
  from part1 part2 part3 show ?thesis by blast
qed

theorem resume_tool_results_witness:
  "fst (resumeTaskFromHistory (\<lambda>i h. ''list_files'') (map ImageBlock) quiet_env None None
           (fresh_task\<lparr>savedApiMessages := interrupted_history\<rparr>))
     = Inr [TextBlock ''[TASK RESUMPTION] Resuming task...'']
   \<and> filter is_tool_result [TextBlock ''[TASK RESUMPTION] Resuming task...''] = []
   \<and> modifiedOldUserContent interrupted_history
     = Inr (interrupted_history,
            [ToolResultBlock ''toolu_01''
               (ResultString ''Task was interrupted before this tool call could be completed.'')])
   \<and> modifiedOldUserContent half_answered_history
     = Inr (butlast half_answered_history,
            [ToolResultBlock ''toolu_01'' (ResultString ''contents of a''),
             ToolResultBlock ''toolu_02''
               (ResultString ''Task was interrupted before this tool call could be completed.'')])"
proof -
  let ?t = "fresh_task\<lparr>savedApiMessages := interrupted_history\<rparr>"
  let ?res = "resumeTaskFromHistory (\<lambda>i h. ''list_files'') (map ImageBlock) quiet_env None None ?t"
  have r: "?res = (Inr [TextBlock ''[TASK RESUMPTION] Resuming task...''], snd ?res)"
    by (simp add: prod_eq_iff interrupted_history_def resumeTaskFromHistory_def
        conversationWithoutToolBlocks_def modifiedOldUserContent_def
        overwriteApiConversationHistory_def Let_def)
  have img: "\<forall>imgs. filter is_tool_result (map ImageBlock imgs) = []"
    by (simp add: filter_empty_conv)
  have a: "interrupted_history \<noteq> [] \<and> role (last interrupted_history) = Assistant"
    by (simp add: interrupted_history_def)
  have b: "length half_answered_history \<ge> 2 \<and> role (last half_answered_history) = User
      \<and> role (half_answered_history ! (length half_answered_history - 2)) = Assistant"
    by (simp add: half_answered_history_def)
  from resume_tool_results [of "\<lambda>i h. ''list_files''" "map ImageBlock" quiet_env None None ?t
      "[TextBlock ''[TASK RESUMPTION] Resuming task...'']" "snd ?res" interrupted_history] r img a
  have p12: "filter is_tool_result [TextBlock ''[TASK RESUMPTION] Resuming task...''] = []
     \<and> modifiedOldUserContent interrupted_history
       = Inr (interrupted_history,
          map interrupted (filter is_tool_use (blocks_of (content (last interrupted_history)))))"
    by blast
  from resume_tool_results [of "\<lambda>i h. ''list_files''" "map ImageBlock" quiet_env None None ?t
      "[TextBlock ''[TASK RESUMPTION] Resuming task...'']" "snd ?res" half_answered_history] b
  have p3: "modifiedOldUserContent half_answered_history
          = Inr (butlast half_answered_history,
                 blocks_of (content (last half_answered_history)) @
                 map interrupted
                   (filter (\<lambda>toolUse. tool_id toolUse \<notin>
                              tool_id ` set (filter is_tool_result (blocks_of (content (last half_answered_history)))))
                      (filter is_tool_use (blocks_of (content (half_answered_history ! (length half_answered_history - 2)))))))"
    by blast
  have e1: "map interrupted (filter is_tool_use (blocks_of (content (last interrupted_history))))
      = [ToolResultBlock ''toolu_01''
               (ResultString ''Task was interrupted before this tool call could be completed.'')]"
    by (simp add: interrupted_history_def interrupted_def)
  have e3: "blocks_of (content (last half_answered_history)) @
                 map interrupted
                   (filter (\<lambda>toolUse. tool_id toolUse \<notin>
                              tool_id ` set (filter is_tool_result (blocks_of (content (last half_answered_history)))))
                      (filter is_tool_use (blocks_of (content (half_answered_history ! (length half_answered_history - 2))))))
      = [ToolResultBlock ''toolu_01'' (ResultString ''contents of a''),
             ToolResultBlock ''toolu_02''
               (ResultString ''Task was interrupted before this tool call could be completed.'')]"
    by (simp add: half_answered_history_def interrupted_def)
  from r have r1: "fst ?res = Inr [TextBlock ''[TASK RESUMPTION] Resuming task...'']"
    by (metis fst_conv)
  from p12 p3 r1 show ?thesis unfolding e1 e3 by blast
qed

section \<open>Properties of attemptApiRequest\<close>

text \<open>A \<open>say\<close> on a task that is not aborted returns unless the webview post throws.\<close>

lemma say_returns:
  assumes "\<not> abort t" "\<not> (provider_alive env \<and> postStateToWebview_throws env)"
  shows "fst (say env now a t) = Inr () \<and> \<not> abort (snd (say env now a t))"
proof (cases "say_partial a")
  case None
  with assms show ?thesis
    using addToClineMessages_ok [OF assms(2)] by (simp add: say_def)
next
  case (Some p)
  show ?thesis
  proof (cases "isUpdatingPreviousPartial_say (say_type a) t")
    case True
    with Some assms show ?thesis
      by (cases p; cases "say_metadata a") (simp_all add: say_def Let_def)
  next
    case False
    with Some assms show ?thesis
      using addToClineMessages_ok [OF assms(2)] by (cases p) (simp_all add: say_def)
  qed
qed

lemma say_keeps_flag:
  "skipPrevResponseIdOnce (snd (say env now a t)) = skipPrevResponseIdOnce t"
  by (simp add: say_def Let_def addToClineMessages_def say_watermark_def set_last_def
      split: option.splits)

lemma countdown_returns:
  assumes "\<not> (provider_alive env \<and> postStateToWebview_throws env)"
  shows "\<not> abort t \<Longrightarrow>
     \<exists>t'. countdown env msg n (sh, t) = (Inr (), sh\<lparr>clock := clock sh + 1000 * int n\<rparr>, t') \<and> \<not> abort t'"
proof (induction n arbitrary: sh t)
  case 0
  then show ?case by simp
next
  case (Suc n)
  let ?r = "say env (clock sh) (retry_delayed_args (msg (Suc n)) True) t"
  from say_returns [OF Suc.prems assms, of "clock sh" "retry_delayed_args (msg (Suc n)) True"]
  have r: "?r = (Inr (), snd ?r)" and na: "\<not> abort (snd ?r)"
    by (simp_all add: prod_eq_iff)
  from Suc.IH [OF na, of "sh\<lparr>clock := clock sh + 1000\<rparr>"]
  obtain t' where "countdown env msg n (sh\<lparr>clock := clock sh + 1000\<rparr>, snd ?r)
      = (Inr (), sh\<lparr>clock := clock sh + 1000 + 1000 * int n\<rparr>, t')" "\<not> abort t'"
    by auto
  moreover have "countdown env msg (Suc n) (sh, t)
      = countdown env msg n (sh\<lparr>clock := clock sh + 1000\<rparr>, snd ?r)"
    by (subst countdown.simps, subst r) simp
  ultimately show ?case by (auto simp: algebra_simps)
qed




text \<open>What the context phase does to the flag, and when it returns.\<close>

lemma saveApiConversationHistory_flag [simp]:
  "skipPrevResponseIdOnce (saveApiConversationHistory env t) = skipPrevResponseIdOnce t"
  by (simp add: saveApiConversationHistory_def saveApiMessages_def log_event_def)

lemma overwriteApi_fields [simp]:
  "skipPrevResponseIdOnce (snd (overwriteApiConversationHistory env h t)) = skipPrevResponseIdOnce t"
  "abort (snd (overwriteApiConversationHistory env h t)) = abort t"
  by (simp_all add: overwriteApiConversationHistory_def)

lemma contextPhase_flag:
  "skipPrevResponseIdOnce (snd (contextPhase env now (ri_truncateResult ri) t))
     = (condensed ri \<or> skipPrevResponseIdOnce t)"
  by (cases "ri_truncateResult ri")
     (simp_all add: contextPhase_def condensed_def Let_def say_keeps_flag)

lemma contextPhase_returns:
  assumes "\<not> abort t" "\<not> (provider_alive env \<and> postStateToWebview_throws env)"
  shows "fst (contextPhase env now tr t) = Inr ()"
proof (cases tr)
  case None
  then show ?thesis by (simp add: contextPhase_def)
next
  case (Some r)
  let ?t1 = "if tr_messages r \<noteq> apiConversationHistory t
      then snd (overwriteApiConversationHistory env (tr_messages r) t) else t"
  have na: "\<not> abort ?t1" using assms(1) by simp
  have na2: "\<not> abort (?t1\<lparr>skipPrevResponseIdOnce := True\<rparr>)" using assms(1) by simp
  show ?thesis
    using Some say_returns [OF na assms(2)] say_returns [OF na2 assms(2)]
    by (simp add: contextPhase_def Let_def)
qed

lemma lastPreviousResponseId_truthy:
  "truthy_str (lastPreviousResponseId msgs) \<or> lastPreviousResponseId msgs = None"
  by (auto simp: lastPreviousResponseId_def find_Some_iff split: option.splits)

lemma buildMetadata_clineMessages:
  "clineMessages (snd (buildMetadata m md t)) = clineMessages t"
  by (simp add: buildMetadata_def Let_def)

text \<open>
  C6, as stated: round N condenses and round N+1 does not. The request of round N itself
  goes out without a previous-response id; the request of round N+1 carries the stored id
  \<open>resp_1\<close> again, where the claim has it suppressed.
\<close>

theorem hint_after_condense_counterexample:
  "condensed condensing_round \<and> \<not> condensed plain_round
   \<and> map_sum id previousResponseId
       (fst (requestPhase quiet_env 10 (Some rate_limited_state) condensing_round gpt5_task))
     = Inr None
   \<and> map_sum id previousResponseId
       (fst (requestPhase quiet_env 20 (Some rate_limited_state) plain_round
          (snd (requestPhase quiet_env 10 (Some rate_limited_state) condensing_round gpt5_task))))
     = Inr (Some ''resp_1'')"
  by (simp add: condensed_def condensing_round_def plain_round_def requestPhase_def contextPhase_def
      buildMetadata_def gpt5_task_def fresh_task_def quiet_env_def say_def truthy_str_def truthy_bool_def
      isUpdatingPreviousPartial_say_def at_last_def say_watermark_def addToClineMessages_def
      saveClineMessages_def saveClineMessages_body_def captureMessage_def updateClineMessage_def
      log_event_def set_last_def new_message_def lastPreviousResponseId_def stored_response_id_def
      startsWith_def Let_def)

text \<open>
  C6 (amended). A condensation sets the flag within the invocation that then builds the
  request: the request of that same invocation carries no previous-response id and carries
  the explicit suppression. Building a request always leaves the flag cleared, so an
  invocation that starts with the flag cleared and does not condense sends the stored
  previous-response id (for a gpt-5 model) and no suppression. An invocation on a task
  that is not aborted, whose approval check passes and whose webview post does not throw,
  builds its request.
\<close>

theorem request_after_condense:
  "(requestPhase env now state ri t = (Inr md, t') \<longrightarrow> \<not> skipPrevResponseIdOnce t')
   \<and> (condensed ri \<and> requestPhase env now state ri t = (Inr md, t') \<longrightarrow>
        previousResponseId md = None \<and> suppressPreviousResponseId md = Some True)
   \<and> (\<not> condensed ri \<and> \<not> skipPrevResponseIdOnce t \<and> requestPhase env now state ri t = (Inr md, t') \<longrightarrow>
        suppressPreviousResponseId md = None \<and>
        previousResponseId md
          = (if startsWith (ri_modelId ri) ''gpt-5'' then lastPreviousResponseId (clineMessages t')
             else None))
   \<and> (\<not> abort t \<and> \<not> (provider_alive env \<and> postStateToWebview_throws env) \<and> ri_shouldProceed ri \<longrightarrow>
        (\<exists>md1 t1. requestPhase env now state ri t = (Inr md1, t1)))"
proof -
  let ?c = "contextPhase env now (ri_truncateResult ri) t"
  let ?mode = "case state of None \<Rightarrow> None | Some st \<Rightarrow> mode st"
  have shape: "fst ?c = Inr () \<and> ri_shouldProceed ri \<and>
      (md, t') = buildMetadata (ri_modelId ri) ?mode (snd ?c)"
    if "requestPhase env now state ri t = (Inr md, t')"
    using that
    by (cases ?c) (auto simp: requestPhase_def split: sum.splits if_splits prod.splits)
  have flag: "skipPrevResponseIdOnce (snd ?c) = (condensed ri \<or> skipPrevResponseIdOnce t)"
    by (rule contextPhase_flag)
  have p1: "\<not> skipPrevResponseIdOnce t'" if r: "requestPhase env now state ri t = (Inr md, t')"
    using shape [OF r] by (auto simp: buildMetadata_def Let_def split: if_splits)
  have p2: "previousResponseId md = None \<and> suppressPreviousResponseId md = Some True"
    if "condensed ri \<and> requestPhase env now state ri t = (Inr md, t')"
    using that shape flag by (auto simp: buildMetadata_def Let_def truthy_str_def)
  have p3: "suppressPreviousResponseId md = None \<and>
        previousResponseId md
          = (if startsWith (ri_modelId ri) ''gpt-5'' then lastPreviousResponseId (clineMessages t')
             else None)"
    if h: "\<not> condensed ri \<and> \<not> skipPrevResponseIdOnce t \<and> requestPhase env now state ri t = (Inr md, t')"
  proof -
    from h shape have b: "(md, t') = buildMetadata (ri_modelId ri) ?mode (snd ?c)" by blast
    from h flag have nf: "\<not> skipPrevResponseIdOnce (snd ?c)" by simp
    from b have cm: "clineMessages t' = clineMessages (snd ?c)"
      by (metis buildMetadata_clineMessages snd_conv)
    have sw: "startsWith (ri_modelId ri) ''gpt-5'' \<Longrightarrow> ri_modelId ri \<noteq> []"
      by (auto simp: startsWith_def)
    from b nf cm sw lastPreviousResponseId_truthy [of "clineMessages (snd ?c)"]
    show ?thesis
      by (auto simp: buildMetadata_def Let_def truthy_str_def)
  qed
  have p4: "\<exists>md1 t1. requestPhase env now state ri t = (Inr md1, t1)"
    if "\<not> abort t \<and> \<not> (provider_alive env \<and> postStateToWebview_throws env) \<and> ri_shouldProceed ri"
  proof -
    from that contextPhase_returns [of t env now "ri_truncateResult ri"]
    have "fst ?c = Inr ()" by blast
    with that show ?thesis
      by (cases ?c) (auto simp: requestPhase_def split: prod.splits)
  qed
  from p1 p2 p3 p4 show ?thesis by blast
qed

theorem request_after_condense_witness:
  "condensed condensing_round \<and> \<not> condensed plain_round
   \<and> (\<exists>md t' md2 t2.
        requestPhase quiet_env 10 (Some rate_limited_state) condensing_round gpt5_task = (Inr md, t')
      \<and> previousResponseId md = None \<and> suppressPreviousResponseId md = Some True
      \<and> \<not> skipPrevResponseIdOnce t'
      \<and> requestPhase quiet_env 20 (Some rate_limited_state) plain_round t' = (Inr md2, t2)
      \<and> suppressPreviousResponseId md2 = None \<and> previousResponseId md2 = Some ''resp_1''
      \<and> \<not> skipPrevResponseIdOnce t2)"
proof -
  let ?st = "Some rate_limited_state"
  have c: "condensed condensing_round" "\<not> condensed plain_round"
    by (simp_all add: condensed_def condensing_round_def plain_round_def truthy_str_def)
  have ok: "\<not> abort gpt5_task \<and> \<not> (provider_alive quiet_env \<and> postStateToWebview_throws quiet_env)
      \<and> ri_shouldProceed condensing_round \<and> ri_shouldProceed plain_round"
    by (simp add: gpt5_task_def fresh_task_def quiet_env_def condensing_round_def plain_round_def)
  from request_after_condense [of quiet_env 10 ?st condensing_round gpt5_task] ok
  obtain md t' where r1: "requestPhase quiet_env 10 ?st condensing_round gpt5_task = (Inr md, t')"
    by blast
  from request_after_condense [of quiet_env 10 ?st condensing_round gpt5_task md t'] r1 c
  have p1: "previousResponseId md = None" "suppressPreviousResponseId md = Some True"
    "\<not> skipPrevResponseIdOnce t'"
    by blast+
  have t': "snd (requestPhase quiet_env 10 ?st condensing_round gpt5_task) = t'"
    using r1 by simp
  have facts: "\<not> abort (snd (requestPhase quiet_env 10 ?st condensing_round gpt5_task))
      \<and> lastPreviousResponseId (clineMessages (snd (requestPhase quiet_env 10 ?st condensing_round gpt5_task)))
          = Some ''resp_1''"
    by (simp add: condensing_round_def requestPhase_def contextPhase_def
      buildMetadata_def gpt5_task_def fresh_task_def quiet_env_def say_def truthy_str_def truthy_bool_def
      isUpdatingPreviousPartial_say_def at_last_def say_watermark_def addToClineMessages_def
      saveClineMessages_def saveClineMessages_body_def captureMessage_def updateClineMessage_def
      log_event_def set_last_def new_message_def lastPreviousResponseId_def stored_response_id_def
      startsWith_def Let_def)
  then have na: "\<not> abort t'" and lk: "lastPreviousResponseId (clineMessages t') = Some ''resp_1''"
    unfolding t' by blast+
  from request_after_condense [of quiet_env 20 ?st plain_round t'] ok na
  obtain md2 t2 where r2: "requestPhase quiet_env 20 ?st plain_round t' = (Inr md2, t2)"
    by blast
  have same: "clineMessages t2 = clineMessages t'"
    using r2 by (auto simp: requestPhase_def contextPhase_def plain_round_def buildMetadata_def
        Let_def split: if_splits)
  have gpt: "startsWith (ri_modelId plain_round) ''gpt-5''"
    by (simp add: plain_round_def startsWith_def)
  from request_after_condense [of quiet_env 20 ?st plain_round t' md2 t2] r2 c p1(3)
  have p2: "suppressPreviousResponseId md2 = None"
    "previousResponseId md2
      = (if startsWith (ri_modelId plain_round) ''gpt-5'' then lastPreviousResponseId (clineMessages t2)
         else None)"
    "\<not> skipPrevResponseIdOnce t2"
    by blast+
  from p2(2) gpt same lk have "previousResponseId md2 = Some ''resp_1''" by simp
  with c r1 p1 r2 p2(1,3) show ?thesis by blast
qed

text \<open>The retry countdown.\<close>

lemma retryPhase_returns:
  assumes na: "\<not> abort t" and ok: "\<not> (provider_alive env \<and> postStateToWebview_throws env)"
  shows "\<exists>t'. retryPhase env state retryAttempt err errorMsg d (sh, t)
           = (Inr (), sh\<lparr>clock := clock sh + 1000 * max 0 (finalDelay state retryAttempt err d)\<rparr>, t')"
proof -
  define msg where "msg = (\<lambda>i. errorMsg @ nl @ nl @ ''Retry attempt '' @ show_nat (retryAttempt + 1) @ nl @
                   ''Retrying in '' @ show_nat i @ '' seconds...'')"
  define closing where "closing = retry_delayed_args
                     (errorMsg @ nl @ nl @ ''Retry attempt '' @ show_nat (retryAttempt + 1) @ nl @
                      ''Retrying now...'') False"
  define n where "n = nat (finalDelay state retryAttempt err d)"
  have "\<exists>t'. countdown env msg n (sh, t) = (Inr (), sh\<lparr>clock := clock sh + 1000 * int n\<rparr>, t') \<and> \<not> abort t'"
    using na by (rule countdown_returns [OF ok])
  then obtain t1 where c: "countdown env msg n (sh, t) = (Inr (), sh\<lparr>clock := clock sh + 1000 * int n\<rparr>, t1)"
    and na1: "\<not> abort t1" by blast
  define s where "s = say env (clock (sh\<lparr>clock := clock sh + 1000 * int n\<rparr>)) closing t1"
  from say_returns [OF na1 ok] have fs: "fst s = Inr ()" unfolding s_def by blast
  have unf: "retryPhase env state retryAttempt err errorMsg d (sh, t)
      = (case countdown env msg n (sh, t) of
           (Inl e, st') \<Rightarrow> (Inl e, st')
         | (Inr u, sh', t') \<Rightarrow> (case say env (clock sh') closing t' of (r, t'') \<Rightarrow> (r, sh', t'')))"
    unfolding retryPhase_def msg_def closing_def n_def by (rule refl)
  have "retryPhase env state retryAttempt err errorMsg d (sh, t)
      = (fst s, sh\<lparr>clock := clock sh + 1000 * int n\<rparr>, snd s)"
    unfolding unf c s_def by (simp add: case_prod_beta)
  moreover have "int n = max 0 (finalDelay state retryAttempt err d)"
    unfolding n_def by simp
  ultimately show ?thesis using fs by auto
qed

lemma hint7: "retry_hint retry_info_error = Some 7"
  by (simp add: retry_hint_def retry_info_error_def match_seconds_def is_digit_def digit_val_def)

text \<open>
  C7, as stated, at two inputs. With a base delay of 5 at attempt 0 and a rate-limit delay
  of 8 seconds the retry waits 8 seconds, not \<open>min(ceil(5 * 2^0), 600) = 5\<close>. With a 429
  that hints \<open>7s\<close> the retry waits 8 seconds, not the hinted 7.
\<close>

theorem retry_delay_counterexample:
  "finalDelay (Some rate_limited_state) 0 server_error 8 = 8
   \<and> min \<lceil>real_of_int (baseDelay (Some rate_limited_state)) * 2 ^ (0::nat)\<rceil> (600::int) = 5
   \<and> finalDelay (Some rate_limited_state) 0 retry_info_error 0 = 8
   \<and> retry_hint retry_info_error = Some 7"
proof -
  have n: "retry_hint server_error = None"
    by (simp add: retry_hint_def server_error_def)
  show ?thesis
    by (simp add: finalDelay_def exponentialDelay_def baseDelay_def num_or_def rate_limited_state_def
        MAX_EXPONENTIAL_BACKOFF_SECONDS_def hint7 n)
qed

text \<open>
  C7 (amended). Without a parsable hint the backoff value is
  \<open>min(ceil(base * 2^attempt), 600)\<close>, with \<open>base\<close> the configured request delay or 5. A 429
  with a \<open>RetryInfo\<close> detail whose retry delay reads \<open>n\<close> seconds replaces it by \<open>n + 1\<close>;
  an error of another status carries no hint. The delay that is waited is the greater of
  that value and the rate-limit delay, counted down second by second.
\<close>

theorem retry_delay_value:
  "(retry_hint err = None \<longrightarrow>
      exponentialDelay state retryAttempt err
        = min \<lceil>real_of_int (baseDelay state) * 2 ^ retryAttempt\<rceil> 600)
   \<and> (retry_hint err = Some n \<longrightarrow> exponentialDelay state retryAttempt err = int n + 1)
   \<and> (status err \<noteq> Some 429 \<longrightarrow> retry_hint err = None)
   \<and> finalDelay state retryAttempt err d = max (exponentialDelay state retryAttempt err) d
   \<and> (\<not> abort t \<and> \<not> (provider_alive env \<and> postStateToWebview_throws env) \<longrightarrow>
        (\<exists>t'. retryPhase env state retryAttempt err errorMsg d (sh, t)
           = (Inr (), sh\<lparr>clock := clock sh + 1000 * max 0 (finalDelay state retryAttempt err d)\<rparr>, t')))"
proof -
  have p1: "retry_hint err = None \<longrightarrow>
      exponentialDelay state retryAttempt err
        = min \<lceil>real_of_int (baseDelay state) * 2 ^ retryAttempt\<rceil> 600"
    by (simp add: exponentialDelay_def MAX_EXPONENTIAL_BACKOFF_SECONDS_def Let_def)
  have p2: "retry_hint err = Some n \<longrightarrow> exponentialDelay state retryAttempt err = int n + 1"
    by (simp add: exponentialDelay_def Let_def)
  have p3: "status err \<noteq> Some 429 \<longrightarrow> retry_hint err = None"
    by (simp add: retry_hint_def)
  have p4: "finalDelay state retryAttempt err d = max (exponentialDelay state retryAttempt err) d"
    by (simp add: finalDelay_def)
  have p5: "\<not> abort t \<and> \<not> (provider_alive env \<and> postStateToWebview_throws env) \<longrightarrow>
        (\<exists>t'. retryPhase env state retryAttempt err errorMsg d (sh, t)
           = (Inr (), sh\<lparr>clock := clock sh + 1000 * max 0 (finalDelay state retryAttempt err d)\<rparr>, t'))"
    using retryPhase_returns by blast
  from p1 p2 p3 p4 p5 show ?thesis by blast
qed

theorem retry_delay_value_witness:
  "retry_hint server_error = None
   \<and> exponentialDelay (Some rate_limited_state) 3 server_error = 40
   \<and> exponentialDelay (Some rate_limited_state) 9 server_error = 600
   \<and> retry_hint retry_info_error = Some 7
   \<and> exponentialDelay (Some rate_limited_state) 3 retry_info_error = 8
   \<and> finalDelay (Some rate_limited_state) 3 retry_info_error 9 = 9
   \<and> (\<exists>t'. retryPhase quiet_env (Some rate_limited_state) 3 retry_info_error ''Too many requests'' 9
              (\<lparr>lastGlobalApiRequestTime = Some 1000, clock = 2000\<rparr>, fresh_task)
           = (Inr (), \<lparr>lastGlobalApiRequestTime = Some 1000, clock = 11000\<rparr>, t'))"
proof -
  let ?st = "Some rate_limited_state"
  let ?sh = "\<lparr>lastGlobalApiRequestTime = Some 1000, clock = 2000\<rparr>"
  have n: "retry_hint server_error = None"
    by (simp add: retry_hint_def server_error_def)
  have b: "baseDelay ?st = 5"
    by (simp add: baseDelay_def num_or_def rate_limited_state_def)
  have ok: "\<not> abort fresh_task \<and> \<not> (provider_alive quiet_env \<and> postStateToWebview_throws quiet_env)"
    by (simp add: fresh_task_def quiet_env_def)
  from retry_delay_value [of server_error ?st 3 0 0 fresh_task quiet_env "''x''" ?sh] n
  have e3: "exponentialDelay ?st 3 server_error = 40" by (simp add: b)
  from retry_delay_value [of server_error ?st 9 0 0 fresh_task quiet_env "''x''" ?sh] n
  have e9: "exponentialDelay ?st 9 server_error = 600" by (simp add: b)
  note inst = retry_delay_value [of retry_info_error ?st 3 7 9 fresh_task quiet_env
      "''Too many requests''" ?sh]
  from inst hint7 have h: "exponentialDelay ?st 3 retry_info_error = 8" by simp
  from inst h have f: "finalDelay ?st 3 retry_info_error 9 = 9" by simp
  from inst ok have "\<exists>t'. retryPhase quiet_env ?st 3 retry_info_error ''Too many requests'' 9 (?sh, fresh_task)
           = (Inr (), ?sh\<lparr>clock := clock ?sh + 1000 * max 0 (finalDelay ?st 3 retry_info_error 9)\<rparr>, t')"
    by blast
  then have r: "\<exists>t'. retryPhase quiet_env ?st 3 retry_info_error ''Too many requests'' 9 (?sh, fresh_task)
           = (Inr (), \<lparr>lastGlobalApiRequestTime = Some 1000, clock = 11000\<rparr>, t')"
    unfolding f by simp
  from n e3 e9 hint7 h f r show ?thesis by blast
qed

section \<open>Properties of the request loop\<close>

lemma addToApi_fields [simp]:
  "abort (snd (addToApiConversationHistory env now r c t)) = abort t"
  "abandoned (snd (addToApiConversationHistory env now r c t)) = abandoned t"
  "clineMessages (snd (addToApiConversationHistory env now r c t)) = clineMessages t"
  "apiConversationHistory (snd (addToApiConversationHistory env now r c t))
     = apiConversationHistory t @ [\<lparr>role = r, content = c, api_ts = Some now\<rparr>]"
  by (simp_all add: addToApiConversationHistory_def saveApiConversationHistory_def
      saveApiMessages_def log_event_def)

lemma say_keeps_abandoned:
  "abandoned (snd (say env now a t)) = abandoned t"
  by (simp add: say_def Let_def addToClineMessages_def say_watermark_def set_last_def
      split: option.splits)

lemma say_plain_log:
  assumes "\<not> abort t" "\<not> (provider_alive env \<and> postStateToWebview_throws env)"
    "say_partial a = None"
  shows "\<exists>m. clineMessages (snd (say env now a t)) = clineMessages t @ [m]
            \<and> msg_say m = Some (say_type a)
       \<and> apiConversationHistory (snd (say env now a t)) = apiConversationHistory t"
  using assms
  by (simp add: say_def addToClineMessages_def Let_def new_message_def say_watermark_def)

lemma round_entry_returns:
  assumes "\<not> abort t" "quiet_round r"
  shows "\<exists>t1. round_entry r uc t = (Inr (), t1) \<and> \<not> abort t1 \<and> abandoned t1 = abandoned t"
proof -
  define a where "a = \<lparr>say_type = ''api_req_started'', say_text = Some (r_requestText r),
                   say_images = None, say_partial = None, say_checkpoint = None,
                   say_progressStatus = None, say_isNonInteractive = None, say_metadata = None,
                   say_contextCondense = None\<rparr>"
  define s where "s = say (r_env r) (r_now r) a t"
  from assms have ok: "\<not> (provider_alive (r_env r) \<and> postStateToWebview_throws (r_env r))"
    and np: "\<not> r_pre_throws r" "\<not> r_details_throw r"
    by (simp_all add: quiet_round_def)
  from say_returns [OF assms(1) ok] have s1: "fst s = Inr ()" "\<not> abort (snd s)"
    unfolding s_def by blast+
  have s2: "abandoned (snd s) = abandoned t" unfolding s_def by (rule say_keeps_abandoned)
  have "round_entry r uc t
      = (case s of
             (Inl e, t1) \<Rightarrow> (Inl e, t1)
           | (Inr u, t1) \<Rightarrow>
               let finalUserContent =
                     r_processMentions r uc @ [TextBlock (r_environmentDetails r)];
                   t2 = snd (addToApiConversationHistory (r_env r) (r_now r) User
                               (BlockContent finalUserContent) t1)
               in (Inr (), saveClineMessages (r_env r) t2))"
    using assms(1) np unfolding round_entry_def s_def a_def
    by (simp split: prod.split sum.split)
  with s1 s2 show ?thesis
    by (cases s) (auto simp: Let_def)
qed

lemma round_try_quiet:
  assumes "\<not> abort t" "\<not> abandoned t" "quiet_round r"
  shows "\<exists>st t2. round_try r t = (Inr st, t2) \<and> \<not> abort t2 \<and> \<not> abandoned t2
           \<and> (r_assistantMessage r = [] \<longrightarrow> st = Empty
                \<and> last (apiConversationHistory t2)
                    = \<lparr>role = Assistant,
                       content = BlockContent [TextBlock ''Failure: I did not provide a response.''],
                       api_ts = Some (r_now r)\<rparr>
                \<and> msg_say (last (clineMessages t2)) = Some ''error'')"
proof -
  define a where "a = \<lparr>say_type = ''error'',
                          say_text = Some ''Unexpected API Response: The language model did not provide any assistant messages. This may indicate an issue with the API or the model's output.'',
                          say_images = None, say_partial = None, say_checkpoint = None,
                          say_progressStatus = None, say_isNonInteractive = None,
                          say_metadata = None, say_contextCondense = None\<rparr>"
  define t2 where "t2 = saveClineMessages (r_env r) t"
  define s where "s = say (r_env r) (r_now r) a t2"
  from assms have ok: "\<not> (provider_alive (r_env r) \<and> postStateToWebview_throws (r_env r))"
    and q: "\<not> r_try_throws r" "r_stream r = Completed"
    by (simp_all add: quiet_round_def)
  have na2: "\<not> abort t2" "\<not> abandoned t2" using assms unfolding t2_def by simp_all
  from say_returns [OF na2(1) ok] have s1: "fst s = Inr ()" "\<not> abort (snd s)"
    unfolding s_def by blast+
  have s2: "\<not> abandoned (snd s)" unfolding s_def using na2 by (simp add: say_keeps_abandoned)
  have pa: "say_partial a = None" "say_type a = ''error''" by (simp_all add: a_def)
  from say_plain_log [OF na2(1) ok pa(1), of "r_now r"] pa(2)
  have s3: "msg_say (last (clineMessages (snd s))) = Some ''error''"
    unfolding s_def by auto
  have unf: "round_try r t =
      (if length (r_assistantMessage r) > 0 then
                  let t3 = snd (addToApiConversationHistory (r_env r) (r_now r) Assistant
                                  (BlockContent [TextBlock (r_assistantMessage r)]) t2)
                  in if \<not> r_ready r then (Inr NotReady, t3)
                     else if \<not> r_didToolUse r then
                       (Inr (Next (r_userMessageContent r @ [TextBlock (r_noToolsUsed r)])),
                        t3\<lparr>consecutiveMistakeCount := consecutiveMistakeCount t3 + 1\<rparr>)
                     else (Inr (Next (r_userMessageContent r)), t3)
                else
                  case s of
                    (Inl e, t3) \<Rightarrow> (Inl e, t3)
                  | (Inr u, t3) \<Rightarrow>
                      (Inr Empty,
                       snd (addToApiConversationHistory (r_env r) (r_now r) Assistant
                              (BlockContent [TextBlock ''Failure: I did not provide a response.'']) t3)))"
    using assms(1,2) q unfolding round_try_def stream_loop_def s_def a_def t2_def
    by (simp add: Let_def)
  show ?thesis
  proof (cases "r_assistantMessage r = []")
    case True
    with unf s1 s2 s3 show ?thesis by (cases s) auto
  next
    case False
    with unf na2 show ?thesis by (auto simp: Let_def)
  qed
qed

lemma loop_quiet:
  "\<not> abort t \<Longrightarrow> \<not> abandoned t \<Longrightarrow> \<forall>r \<in> set rs. quiet_round r \<Longrightarrow>
     fst (recursivelyMakeClineRequests rs uc t) = None \<or>
     fst (recursivelyMakeClineRequests rs uc t) = Some (Inr False)"
proof (induction rs arbitrary: uc t)
  case Nil
  then show ?case by simp
next
  case (Cons r rs)
  then have q: "quiet_round r" by simp
  from round_entry_returns [OF Cons.prems(1) q, of uc] Cons.prems(2)
  obtain t1 where e: "round_entry r uc t = (Inr (), t1)" and t1: "\<not> abort t1" "\<not> abandoned t1"
    by auto
  from round_try_quiet [OF t1 q]
  obtain st t2 where tr: "round_try r t1 = (Inr st, t2)" and t2: "\<not> abort t2" "\<not> abandoned t2"
    by blast
  show ?case
  proof (cases st)
    case (Next uc')
    from Cons.IH [OF t2, of uc'] Cons.prems(3)
    have "fst (recursivelyMakeClineRequests rs uc' t2) = None \<or>
          fst (recursivelyMakeClineRequests rs uc' t2) = Some (Inr False)" by simp
    with e tr Next show ?thesis
      by (cases "recursivelyMakeClineRequests rs uc' t2") auto
  next
    case Empty
    with e tr show ?thesis by simp
  next
    case NotReady
    with e tr show ?thesis by simp
  qed
qed

text \<open>
  C5, as stated, on a round whose stream completes with an empty assistant text: the
  invocation records the error turn and returns \<open>false\<close>, where the claim has \<open>true\<close>.
\<close>

theorem empty_response_returns_false_counterexample:
  "r_assistantMessage (round_with '''') = []
   \<and> fst (recursivelyMakeClineRequests [round_with ''''] [TextBlock ''<task>list files</task>'']
            fresh_task) = Some (Inr False)
   \<and> last (apiConversationHistory
        (snd (recursivelyMakeClineRequests [round_with ''''] [TextBlock ''<task>list files</task>'']
                fresh_task)))
      = \<lparr>role = Assistant,
         content = BlockContent [TextBlock ''Failure: I did not provide a response.''],
         api_ts = Some 100\<rparr>"
proof -
  let ?uc = "[TextBlock ''<task>list files</task>'']"
  have q: "quiet_round (round_with '''')"
    by (simp add: quiet_round_def round_with_def quiet_env_def)
  have f: "\<not> abort fresh_task" "\<not> abandoned fresh_task" by (simp_all add: fresh_task_def)
  have m: "r_assistantMessage (round_with '''') = []" "r_now (round_with '''') = 100"
    by (simp_all add: round_with_def)
  from round_entry_returns [OF f(1) q, of ?uc] f(2)
  obtain t1 where e: "round_entry (round_with '''') ?uc fresh_task = (Inr (), t1)"
    and t1: "\<not> abort t1" "\<not> abandoned t1" by auto
  from round_try_quiet [OF t1 q] m
  obtain t2 where tr: "round_try (round_with '''') t1 = (Inr Empty, t2)"
    and l: "last (apiConversationHistory t2)
                    = \<lparr>role = Assistant,
                       content = BlockContent [TextBlock ''Failure: I did not provide a response.''],
                       api_ts = Some 100\<rparr>"
    by auto
  have "recursivelyMakeClineRequests [round_with ''''] ?uc fresh_task = (Some (Inr False), t2)"
    using e tr by simp
  with l m show ?thesis by simp
qed

text \<open>
  C5 (amended). An invocation throws what is thrown before its \<open>try\<close> block. Once
  inside, it returns \<open>true\<close> when an exception is thrown in the block, also when the
  recursive call for the next round throws; it returns \<open>false\<close> when the assistant text
  of the round is empty, after recording the error message and the failure turn; and
  otherwise its result is the value the recursive call returns. In rounds where nothing
  throws and the stream completes the loop never returns \<open>true\<close>: it returns \<open>false\<close> at an
  empty response or goes on.
\<close>

theorem loop_returns_true_only_on_exception:
  "(round_entry r uc t = (Inl e, t1) \<longrightarrow>
      recursivelyMakeClineRequests (r # rs) uc t = (Some (Inl e), t1))
   \<and> (round_entry r uc t = (Inr (), t1) \<and> round_try r t1 = (Inl e, t2) \<longrightarrow>
      recursivelyMakeClineRequests (r # rs) uc t = (Some (Inr True), t2))
   \<and> (round_entry r uc t = (Inr (), t1) \<and> round_try r t1 = (Inr Empty, t2) \<longrightarrow>
      recursivelyMakeClineRequests (r # rs) uc t = (Some (Inr False), t2))
   \<and> (round_entry r uc t = (Inr (), t1) \<and> round_try r t1 = (Inr (Next uc'), t2) \<longrightarrow>
      fst (recursivelyMakeClineRequests (r # rs) uc t)
        = (case fst (recursivelyMakeClineRequests rs uc' t2) of
             None \<Rightarrow> None
           | Some (Inl e') \<Rightarrow> Some (Inr True)
           | Some (Inr recDidEndLoop) \<Rightarrow> Some (Inr recDidEndLoop)))
   \<and> (\<not> abort t1 \<and> \<not> abandoned t1 \<and> quiet_round r \<and> r_assistantMessage r = [] \<longrightarrow>
      (\<exists>t3. round_try r t1 = (Inr Empty, t3)
         \<and> last (apiConversationHistory t3)
             = \<lparr>role = Assistant,
                content = BlockContent [TextBlock ''Failure: I did not provide a response.''],
                api_ts = Some (r_now r)\<rparr>
         \<and> msg_say (last (clineMessages t3)) = Some ''error''))
   \<and> (\<not> abort t \<and> \<not> abandoned t \<and> (\<forall>q \<in> set qs. quiet_round q) \<longrightarrow>
      fst (recursivelyMakeClineRequests qs uc t) = None \<or>
      fst (recursivelyMakeClineRequests qs uc t) = Some (Inr False))"
proof -
  have p4: "fst (recursivelyMakeClineRequests (r # rs) uc t)
        = (case fst (recursivelyMakeClineRequests rs uc' t2) of
             None \<Rightarrow> None
           | Some (Inl e') \<Rightarrow> Some (Inr True)
           | Some (Inr recDidEndLoop) \<Rightarrow> Some (Inr recDidEndLoop))"
    if "round_entry r uc t = (Inr (), t1) \<and> round_try r t1 = (Inr (Next uc'), t2)"
    using that
    by (cases "recursivelyMakeClineRequests rs uc' t2")
       (auto split: option.splits sum.splits)
  have p5: "\<exists>t3. round_try r t1 = (Inr Empty, t3)
         \<and> last (apiConversationHistory t3)
             = \<lparr>role = Assistant,
                content = BlockContent [TextBlock ''Failure: I did not provide a response.''],
                api_ts = Some (r_now r)\<rparr>
         \<and> msg_say (last (clineMessages t3)) = Some ''error''"
    if "\<not> abort t1 \<and> \<not> abandoned t1 \<and> quiet_round r \<and> r_assistantMessage r = []"
    using that round_try_quiet [of t1 r] by blast
  have p6: "fst (recursivelyMakeClineRequests qs uc t) = None \<or>
      fst (recursivelyMakeClineRequests qs uc t) = Some (Inr False)"
    if "\<not> abort t \<and> \<not> abandoned t \<and> (\<forall>q \<in> set qs. quiet_round q)"
    using that loop_quiet by blast
  have p123: "(round_entry r uc t = (Inl e, t1) \<longrightarrow>
      recursivelyMakeClineRequests (r # rs) uc t = (Some (Inl e), t1))
   \<and> (round_entry r uc t = (Inr (), t1) \<and> round_try r t1 = (Inl e, t2) \<longrightarrow>
      recursivelyMakeClineRequests (r # rs) uc t = (Some (Inr True), t2))
   \<and> (round_entry r uc t = (Inr (), t1) \<and> round_try r t1 = (Inr Empty, t2) \<longrightarrow>
      recursivelyMakeClineRequests (r # rs) uc t = (Some (Inr False), t2))"
    by simp
  from p123 p4 p5 p6 show ?thesis by blast
qed

theorem loop_returns_true_only_on_exception_witness:
  "fst (recursivelyMakeClineRequests [round_with ''Listing the files.'', round_with '''']
          [TextBlock ''<task>list files</task>''] fresh_task) = Some (Inr False)
   \<and> fst (recursivelyMakeClineRequests [round_with ''Listing the files.'']
          [TextBlock ''<task>list files</task>''] (fresh_task\<lparr>abort := True\<rparr>)) = Some (Inl LoopAborted)
   \<and> fst (recursivelyMakeClineRequests [(round_with ''Listing the files.'')\<lparr>r_try_throws := True\<rparr>]
          [TextBlock ''<task>list files</task>''] fresh_task) = Some (Inr True)
   \<and> fst (recursivelyMakeClineRequests
            [round_with ''Listing the files.'', (round_with ''Done.'')\<lparr>r_pre_throws := True\<rparr>]
          [TextBlock ''<task>list files</task>''] fresh_task) = Some (Inr True)"
proof -
  let ?uc = "[TextBlock ''<task>list files</task>'']"
  let ?r = "round_with ''Listing the files.''"
  let ?e = "round_with ''''"
  let ?x = "?r\<lparr>r_try_throws := True\<rparr>"
  let ?p = "(round_with ''Done.'')\<lparr>r_pre_throws := True\<rparr>"
  let ?next = "[TextBlock ''[list_files] Result: a.ts'']"
  have q: "quiet_round ?r" "quiet_round ?e"
    by (simp_all add: quiet_round_def round_with_def quiet_env_def)
  have f: "\<not> abort fresh_task" "\<not> abandoned fresh_task" by (simp_all add: fresh_task_def)
  from round_entry_returns [OF f(1) q(1), of ?uc] f(2)
  obtain t1 where e1: "round_entry ?r ?uc fresh_task = (Inr (), t1)"
    and t1: "\<not> abort t1" "\<not> abandoned t1" by auto
  have "\<exists>t2. round_try ?r t1 = (Inr (Next ?next), t2) \<and> \<not> abort t2 \<and> \<not> abandoned t2"
    using t1 by (simp add: round_try_def stream_loop_def round_with_def Let_def)
  then obtain t2 where tr1: "round_try ?r t1 = (Inr (Next ?next), t2)"
    and t2: "\<not> abort t2" "\<not> abandoned t2" by blast
  from round_entry_returns [OF t2(1) q(2), of ?next] t2(2)
  obtain t3 where e2: "round_entry ?e ?next t2 = (Inr (), t3)"
    and t3: "\<not> abort t3" "\<not> abandoned t3" by auto
  have em: "r_assistantMessage ?e = []" by (simp add: round_with_def)
  from loop_returns_true_only_on_exception [of ?e ?next t2 OtherFailure t3 "[]" t3 ?next "[]"]
    t3 q(2) em
  obtain t4 where tr2: "round_try ?e t3 = (Inr Empty, t4)" by blast
  from loop_returns_true_only_on_exception [of ?e ?next t2 OtherFailure t3 "[]" t4 ?next "[]"]
    e2 tr2
  have r2: "recursivelyMakeClineRequests [?e] ?next t2 = (Some (Inr False), t4)" by blast
  from loop_returns_true_only_on_exception [of ?r ?uc fresh_task OtherFailure t1 "[?e]" t2 ?next "[]"]
    e1 tr1
  have "fst (recursivelyMakeClineRequests [?r, ?e] ?uc fresh_task)
      = (case fst (recursivelyMakeClineRequests [?e] ?next t2) of
             None \<Rightarrow> None
           | Some (Inl e') \<Rightarrow> Some (Inr True)
           | Some (Inr recDidEndLoop) \<Rightarrow> Some (Inr recDidEndLoop))"
    by blast
  then have a: "fst (recursivelyMakeClineRequests [?r, ?e] ?uc fresh_task) = Some (Inr False)"
    unfolding r2 by simp
  have "round_entry ?r ?uc (fresh_task\<lparr>abort := True\<rparr>) = (Inl LoopAborted, fresh_task\<lparr>abort := True\<rparr>)"
    by (simp add: round_entry_def)
  with loop_returns_true_only_on_exception [of ?r ?uc "fresh_task\<lparr>abort := True\<rparr>" LoopAborted
      "fresh_task\<lparr>abort := True\<rparr>" "[]" t2 ?next "[]"]
  have b: "fst (recursivelyMakeClineRequests [?r] ?uc (fresh_task\<lparr>abort := True\<rparr>)) = Some (Inl LoopAborted)"
    by simp
  have qx: "\<not> r_pre_throws ?x \<and> \<not> (provider_alive (r_env ?x) \<and> postStateToWebview_throws (r_env ?x))"
    by (simp add: round_with_def quiet_env_def)
  have ex: "round_entry ?x ?uc fresh_task = round_entry ?r ?uc fresh_task"
    by (simp add: round_entry_def Let_def split: prod.split sum.split)
  have "round_try ?x t1 = (Inl OtherFailure, t1)"
    by (simp add: round_try_def)
  with loop_returns_true_only_on_exception [of ?x ?uc fresh_task OtherFailure t1 "[]" t1 ?next "[]"]
    e1 ex
  have c: "fst (recursivelyMakeClineRequests [?x] ?uc fresh_task) = Some (Inr True)"
    by simp
  have "round_entry ?p ?next t2 = (Inl OtherFailure, t2)"
    using t2 by (simp add: round_entry_def)
  with loop_returns_true_only_on_exception [of ?p ?next t2 OtherFailure t2 "[]" t2 ?next "[]"]
  have r3: "recursivelyMakeClineRequests [?p] ?next t2 = (Some (Inl OtherFailure), t2)"
    by blast
  from loop_returns_true_only_on_exception [of ?r ?uc fresh_task OtherFailure t1 "[?p]" t2 ?next "[]"]
    e1 tr1
  have "fst (recursivelyMakeClineRequests [?r, ?p] ?uc fresh_task)
      = (case fst (recursivelyMakeClineRequests [?p] ?next t2) of
             None \<Rightarrow> None
           | Some (Inl e') \<Rightarrow> Some (Inr True)
           | Some (Inr recDidEndLoop) \<Rightarrow> Some (Inr recDidEndLoop))"
    by blast
  then have d: "fst (recursivelyMakeClineRequests [?r, ?p] ?uc fresh_task) = Some (Inr True)"
    unfolding r3 by simp
  from a b c d show ?thesis by blast
qed

end
